theory Spec2Isabelle
  imports Main
begin

section \<open>JavaScript values, strings and numbers\<close>

text \<open>
  Strings are lists of code units; a \<^typ>\<open>char\<close> stands for one UTF-16 code unit below
  256. A JavaScript number is modelled as an exact integer or \<open>NaN\<close>: every number the
  scraper stores comes out of \<open>parseInt\<close> or out of the persisted file. The model is
  exact for integers of magnitude up to \<open>2^53\<close>. Beyond that a double rounds (the
  code's \<open>parseInt\<close> reads \<open>9007199254740993\<close> as \<open>9007199254740992\<close>) and from
  \<open>10^21\<close> on \<open>toString\<close> prints an exponent; neither is modelled, nor are fractions,
  and the statement about the value that is parsed carries the bound \<open>2^53\<close>.
\<close>

datatype number = NaN | Finite int

datatype jsval = Undefined | Null | Bool bool | Num number | Str string

datatype error =
    TypeError
  | IncorrectStatus
  | InvalidClassInfo
  | UnableToGetTerm
  | SubjectNotFound string
  | FetchFailed
  | ErrorLoadingJson
  | RangeError

text \<open>Truthiness, as used by \<open>x ? a : b\<close>, \<open>if (x)\<close> and \<open>!x\<close>.\<close>

fun truthy :: "jsval \<Rightarrow> bool" where
  "truthy Undefined = False"
| "truthy Null = False"
| "truthy (Bool b) = b"
| "truthy (Num NaN) = False"
| "truthy (Num (Finite n)) = (n \<noteq> 0)"
| "truthy (Str s) = (s \<noteq> [])"

definition CR :: char where "CR = CHR 0x0D"
definition LF :: char where "LF = CHR 0x0A"

text \<open>White space and line terminators, as \<open>String.prototype.trim\<close> and \<open>parseInt\<close>
  skip them: TAB, LF, VT, FF, CR, SP and NBSP.\<close>

definition is_space :: "char \<Rightarrow> bool" where
  "is_space c = (c = CHR 0x09 \<or> c = CHR 0x0A \<or> c = CHR 0x0B \<or> c = CHR 0x0C
     \<or> c = CHR 0x0D \<or> c = CHR 0x20 \<or> c = CHR 0xA0)"

text \<open>\<open>s.replace(/(\r\n|\n|\r)/gm, "")\<close>: every carriage return and line feed goes.\<close>

definition strip_newlines :: "string \<Rightarrow> string" where
  "strip_newlines s = filter (\<lambda>c. c \<noteq> CR \<and> c \<noteq> LF) s"

text \<open>\<open>s.replace('*', '')\<close>: a string pattern replaces the first occurrence only.\<close>

fun replace_star :: "string \<Rightarrow> string" where
  "replace_star [] = []"
| "replace_star (c # cs) = (if c = CHR ''*'' then cs else c # replace_star cs)"

definition trim :: "string \<Rightarrow> string" where
  "trim s = rev (dropWhile is_space (rev (dropWhile is_space s)))"

text \<open>The value of a digit in the given radix (10 or 16), if it is one.\<close>

definition digit_val :: "nat \<Rightarrow> char \<Rightarrow> nat option" where
  "digit_val radix c =
     (let n = (of_char c :: nat);
          v = (if 48 \<le> n \<and> n \<le> 57 then Some (n - 48)
               else if 97 \<le> n \<and> n \<le> 102 then Some (n - 87)
               else if 65 \<le> n \<and> n \<le> 70 then Some (n - 55)
               else None)
      in case v of None \<Rightarrow> None | Some d \<Rightarrow> if d < radix then Some d else None)"

definition is_digit :: "nat \<Rightarrow> char \<Rightarrow> bool" where
  "is_digit radix c = (digit_val radix c \<noteq> None)"

fun digits_value :: "nat \<Rightarrow> nat \<Rightarrow> string \<Rightarrow> nat" where
  "digits_value radix acc [] = acc"
| "digits_value radix acc (c # cs) =
     digits_value radix (acc * radix + (case digit_val radix c of Some d \<Rightarrow> d | None \<Rightarrow> 0)) cs"

text \<open>
  \<open>parseInt(s)\<close> with no radix argument: skip leading white space, read a sign, switch
  to radix 16 after \<open>0x\<close> or \<open>0X\<close>, read the longest run of digits and ignore what
  follows; no digit at all gives \<open>NaN\<close>.
\<close>

definition read_sign :: "string \<Rightarrow> bool \<times> string" where
  "read_sign s =
     (case s of
        [] \<Rightarrow> (False, [])
      | c # cs \<Rightarrow> if c = CHR ''-'' then (True, cs) else if c = CHR ''+'' then (False, cs) else (False, s))"

definition read_radix :: "string \<Rightarrow> nat \<times> string" where
  "read_radix s =
     (case s of
        c # x # cs \<Rightarrow> if c = CHR ''0'' \<and> (x = CHR ''x'' \<or> x = CHR ''X'') then (16, cs) else (10, s)
      | _ \<Rightarrow> (10, s))"

definition parseInt :: "string \<Rightarrow> number" where
  "parseInt input =
     (case read_sign (dropWhile is_space input) of
        (neg, s1) \<Rightarrow>
          (case read_radix s1 of
             (radix, s2) \<Rightarrow>
               (let z = takeWhile (is_digit radix) s2
                in if z = [] then NaN
                   else Finite ((if neg then - 1 else 1) * int (digits_value radix 0 z)))))"

text \<open>\<open>Number.prototype.toString()\<close> on the modelled numbers: decimal digits.\<close>

definition digit_char :: "nat \<Rightarrow> char" where
  "digit_char d = ''0123456789'' ! d"

function nat_toString :: "nat \<Rightarrow> string" where
  "nat_toString n = (if n < 10 then [digit_char n] else nat_toString (n div 10) @ [digit_char (n mod 10)])"
  by pat_completeness auto
termination
  by (relation "measure id") auto

fun number_toString :: "number \<Rightarrow> string" where
  "number_toString NaN = ''NaN''"
| "number_toString (Finite n) = (if n < 0 then CHR ''-'' # nat_toString (nat (- n)) else nat_toString (nat n))"

text \<open>\<open>x.toString()\<close>: a \<open>TypeError\<close> on \<open>undefined\<close> and \<open>null\<close>.\<close>

fun js_toString :: "jsval \<Rightarrow> error + string" where
  "js_toString Undefined = Inl TypeError"
| "js_toString Null = Inl TypeError"
| "js_toString (Bool b) = Inr (if b then ''true'' else ''false'')"
| "js_toString (Num n) = Inr (number_toString n)"
| "js_toString (Str s) = Inr s"

section \<open>The class \<open>Class\<close> (src/classes/Class.ts)\<close>

text \<open>The private fields \<open>_crn\<close>, \<open>_courseID\<close>, ... are written \<open>crn'\<close>, \<open>courseID'\<close>, ...;
  \<open>credits' = None\<close> is \<open>null\<close>.\<close>

record Class =
  crn' :: number
  courseID' :: string
  attributes' :: "string list"
  title' :: string
  instructor' :: string
  credits' :: "number option"
  times' :: string
  projectedEnrollment' :: number
  currentEnrollment' :: number
  seatsAvailable' :: number
  status' :: string

text \<open>The object before the constructor has assigned anything.\<close>

definition blank :: Class where
  "blank = \<lparr>crn' = NaN, courseID' = [], attributes' = [], title' = [], instructor' = [],
     credits' = None, times' = [], projectedEnrollment' = NaN, currentEnrollment' = NaN,
     seatsAvailable' = NaN, status' = []\<rparr>"

text \<open>\<open>id.replace(/(\r\n|\n|\r)/gm, "").trim()\<close>: only a string has \<open>replace\<close>.\<close>

fun clean :: "jsval \<Rightarrow> error + string" where
  "clean (Str s) = Inr (trim (strip_newlines s))"
| "clean _ = Inl TypeError"

text \<open>\<open>id ? id.replace(/(\r\n|\n|\r)/gm, "").trim() : ''\<close>\<close>

definition clean_or_empty :: "jsval \<Rightarrow> error + string" where
  "clean_or_empty v = (if truthy v then clean v else Inr [])"

text \<open>\<open>parseInt(x.toString().replace(/(\r\n|\n|\r)/gm, "").trim())\<close>\<close>

definition to_int :: "jsval \<Rightarrow> error + number" where
  "to_int v = (case js_toString v of Inl e \<Rightarrow> Inl e
               | Inr s \<Rightarrow> Inr (parseInt (trim (strip_newlines s))))"

definition set_crn :: "jsval \<Rightarrow> Class \<Rightarrow> error + Class" where
  "set_crn v c = (case clean v of Inl e \<Rightarrow> Inl e | Inr s \<Rightarrow> Inr (c\<lparr>crn' := parseInt s\<rparr>))"

definition get_crn :: "Class \<Rightarrow> string" where
  "get_crn c = number_toString (crn' c)"

definition set_courseID :: "jsval \<Rightarrow> Class \<Rightarrow> error + Class" where
  "set_courseID v c = (case clean_or_empty v of Inl e \<Rightarrow> Inl e | Inr s \<Rightarrow> Inr (c\<lparr>courseID' := s\<rparr>))"

text \<open>\<open>attributes.map(attribute => attribute.replace(...).trim())\<close>; \<open>None\<close> is an
  absent argument.\<close>

definition set_attributes :: "string list option \<Rightarrow> Class \<Rightarrow> error + Class" where
  "set_attributes v c = (case v of None \<Rightarrow> Inl TypeError
     | Some as \<Rightarrow> Inr (c\<lparr>attributes' := map (\<lambda>a. trim (strip_newlines a)) as\<rparr>))"

definition set_title :: "jsval \<Rightarrow> Class \<Rightarrow> error + Class" where
  "set_title v c = (case clean_or_empty v of Inl e \<Rightarrow> Inl e | Inr s \<Rightarrow> Inr (c\<lparr>title' := s\<rparr>))"

definition set_instructor :: "jsval \<Rightarrow> Class \<Rightarrow> error + Class" where
  "set_instructor v c = (case clean_or_empty v of Inl e \<Rightarrow> Inl e | Inr s \<Rightarrow> Inr (c\<lparr>instructor' := s\<rparr>))"

definition set_credits :: "jsval \<Rightarrow> Class \<Rightarrow> error + Class" where
  "set_credits v c =
     (if v = Null then Inr (c\<lparr>credits' := None\<rparr>)
      else case to_int v of Inl e \<Rightarrow> Inl e | Inr n \<Rightarrow> Inr (c\<lparr>credits' := Some n\<rparr>))"

definition set_times :: "jsval \<Rightarrow> Class \<Rightarrow> error + Class" where
  "set_times v c = (case clean_or_empty v of Inl e \<Rightarrow> Inl e | Inr s \<Rightarrow> Inr (c\<lparr>times' := s\<rparr>))"

definition set_projectedEnrollment :: "jsval \<Rightarrow> Class \<Rightarrow> error + Class" where
  "set_projectedEnrollment v c =
     (case to_int v of Inl e \<Rightarrow> Inl e | Inr n \<Rightarrow> Inr (c\<lparr>projectedEnrollment' := n\<rparr>))"

definition set_currentEnrollment :: "jsval \<Rightarrow> Class \<Rightarrow> error + Class" where
  "set_currentEnrollment v c =
     (case to_int v of Inl e \<Rightarrow> Inl e | Inr n \<Rightarrow> Inr (c\<lparr>currentEnrollment' := n\<rparr>))"

text \<open>\<open>parseInt(seatsAvailable.toString().replace(/(\r\n|\n|\r)/gm, "").replace('*', '').trim())\<close>\<close>

definition set_seatsAvailable :: "jsval \<Rightarrow> Class \<Rightarrow> error + Class" where
  "set_seatsAvailable v c =
     (case js_toString v of Inl e \<Rightarrow> Inl e
      | Inr s \<Rightarrow> Inr (c\<lparr>seatsAvailable' := parseInt (trim (replace_star (strip_newlines s)))\<rparr>))"

text \<open>
  The status setter. \<open>status == undefined\<close> holds for \<open>undefined\<close> and \<open>null\<close>; the
  loose comparison of a boolean or a number with \<open>'OPEN'\<close> or \<open>'CLOSED'\<close> converts the
  string to \<open>NaN\<close> and is never equal.
\<close>

fun set_status :: "jsval \<Rightarrow> Class \<Rightarrow> error + Class" where
  "set_status Undefined c = Inr (c\<lparr>status' := ''CLOSED''\<rparr>)"
| "set_status Null c = Inr (c\<lparr>status' := ''CLOSED''\<rparr>)"
| "set_status (Str s) c =
     (if s \<noteq> ''OPEN'' \<and> s \<noteq> ''CLOSED'' then Inl IncorrectStatus else Inr (c\<lparr>status' := s\<rparr>))"
| "set_status _ c = Inl IncorrectStatus"

definition get_status :: "Class \<Rightarrow> string" where
  "get_status c = status' c"

definition statusAsBool :: "Class \<Rightarrow> bool" where
  "statusAsBool c = (status' c = ''OPEN'')"

text \<open>Sequencing of steps that may throw: the first error ends the run.\<close>

definition andThen :: "error + 'a \<Rightarrow> ('a \<Rightarrow> error + 'b) \<Rightarrow> error + 'b" where
  "andThen r f = (case r of Inl e \<Rightarrow> Inl e | Inr x \<Rightarrow> f x)"

text \<open>The constructor runs the eleven setters in order.\<close>

definition new_Class ::
  "jsval \<Rightarrow> jsval \<Rightarrow> string list option \<Rightarrow> jsval \<Rightarrow> jsval \<Rightarrow> jsval \<Rightarrow> jsval \<Rightarrow> jsval \<Rightarrow> jsval
     \<Rightarrow> jsval \<Rightarrow> jsval \<Rightarrow> error + Class" where
  "new_Class crn courseID attributes title instructor credits tms projectedEnrollment
     currentEnrollment seatsAvailable status =
     andThen (andThen (andThen (andThen (andThen (andThen (andThen (andThen (andThen (andThen
       (set_crn crn blank)
       (set_courseID courseID))
       (set_attributes attributes))
       (set_title title))
       (set_instructor instructor))
       (set_credits credits))
       (set_times tms))
       (set_projectedEnrollment projectedEnrollment))
       (set_currentEnrollment currentEnrollment))
       (set_seatsAvailable seatsAvailable))
       (set_status status)"

section \<open>The scraper (src/unnamed/part_002)\<close>

text \<open>
  The fields of the \<open>Scraper\<close> object, with \<open>_rateLimit\<close> and \<open>courselistData\<close>
  flattened: \<open>rateLimit_interval\<close> is \<open>_rateLimit._interval\<close>, \<open>terms_latest\<close> is
  \<open>courselistData.terms.latest\<close>, and so on. \<open>None\<close> is \<open>null\<close>. Times are milliseconds.
\<close>

record Scraper =
  userAgent' :: string
  rateLimit_interval :: int
  rateLimit_lastRequest :: int
  terms_latest :: jsval
  terms_all :: "string list option"
  subjects :: "string list option"
  classData :: "Class list"

text \<open>
  What the scraper's methods touch besides the object: the clock that \<open>Date.now()\<close>
  reads, the requests sent so far, and the files on disk. A request for search results is
  identified by the term and subject written into its URL. A file either is not JSON, or
  parses to something that cannot be iterated, or parses to an array of entries.
\<close>

datatype request = GetListing | GetResults string string

record IJsonClass =
  j_crn :: jsval
  j_courseID :: jsval
  j_attributes :: "string list option"
  j_title :: jsval
  j_instructor :: jsval
  j_credits :: jsval
  j_times :: jsval
  j_projectedEnrollment :: jsval
  j_currentEnrollment :: jsval
  j_seatsAvailable :: jsval
  j_status :: jsval

datatype disk_file = NotJson | JsonOther | JsonArray "IJsonClass list"

record system = Scraper +
  clock :: int
  sent :: "request list"
  files :: "string \<rightharpoonup> disk_file"

text \<open>
  The remote site: the listing page (the option values of the \<open>term_code\<close> and
  \<open>term_subj\<close> dropdowns, \<open>None\<close> when the element is missing) and, for each term and
  subject, the rows of the result table as lists of cell texts (\<open>None\<close> when there is no
  \<open>tbody\<close>). \<open>Inl\<close> is a request that fails.
\<close>

record page =
  term_code :: "string list option"
  term_subj :: "string list option"

record network =
  listing :: "error + page"
  results :: "string \<Rightarrow> string \<Rightarrow> error + string list list option"

datatype completion = Normal | Throw error

text \<open>The fields as the constructor leaves them when the user agent passes its check and
  no rate limit is given; the clock is at 0, nothing has been sent and the disk is empty.\<close>

definition new_Scraper :: "string \<Rightarrow> system" where
  "new_Scraper ua = \<lparr>userAgent' = ua, rateLimit_interval = 500, rateLimit_lastRequest = 0,
     terms_latest = Null, terms_all = None, subjects = None, classData = [],
     clock = 0, sent = [], files = Map.empty\<rparr>"

text \<open>The getter \<open>rateLimit\<close> returns \<open>_rateLimit._interval\<close>.\<close>

definition rateLimit :: "system \<Rightarrow> int" where
  "rateLimit st = rateLimit_interval st"

text \<open>
  \<open>_logAndExecuteRateLimit\<close>: \<open>diff = Date.now() - this.rateLimit\<close>; when
  \<open>diff < this.rateLimit\<close> a timer of \<open>this.rateLimit - diff\<close> milliseconds is awaited,
  which moves the clock on by that much; then \<open>_lastRequest = Date.now()\<close>.
\<close>

definition logAndExecuteRateLimit :: "system \<Rightarrow> system" where
  "logAndExecuteRateLimit st =
     (let diff = clock st - rateLimit st;
          st1 = (if diff < rateLimit st then st\<lparr>clock := clock st + (rateLimit st - diff)\<rparr> else st)
      in st1\<lparr>rateLimit_lastRequest := clock st1\<rparr>)"

text \<open>Time passing between two calls.\<close>

definition elapse :: "int \<Rightarrow> system \<Rightarrow> system" where
  "elapse ms st = st\<lparr>clock := clock st + ms\<rparr>"

text \<open>
  \<open>getTermsAndSubjects\<close>. \<open>getElementById(...)\<close> is \<open>null\<close> for a missing dropdown and
  \<open>termChildren[termChildren.length - 2]\<close> is \<open>undefined\<close> with fewer than two options;
  reading a property of either is a \<open>TypeError\<close>. Assignments made before a throw stay.
\<close>

definition getTermsAndSubjects :: "network \<Rightarrow> system \<Rightarrow> completion \<times> system" where
  "getTermsAndSubjects net st =
     (let st1 = logAndExecuteRateLimit st;
          st2 = st1\<lparr>sent := sent st1 @ [GetListing]\<rparr>
      in case listing net of
           Inl e \<Rightarrow> (Throw e, st2)
         | Inr pg \<Rightarrow>
            (case term_code pg of
               None \<Rightarrow> (Throw TypeError, st2)
             | Some termChildren \<Rightarrow>
                (let st3 = st2\<lparr>terms_all := Some termChildren\<rparr>
                 in if length termChildren < 2 then (Throw TypeError, st3)
                    else
                     (let st4 = st3\<lparr>terms_latest := Str (termChildren ! (length termChildren - 2))\<rparr>
                      in case term_subj pg of
                           None \<Rightarrow> (Throw TypeError, st4)
                         | Some subjectsChildren \<Rightarrow>
                             (Normal, st4\<lparr>subjects := Some (drop 1 subjectsChildren)\<rparr>)))))"

text \<open>\<open>s.split(',')\<close>\<close>

fun split_comma :: "string \<Rightarrow> string list" where
  "split_comma [] = [[]]"
| "split_comma (c # cs) =
     (if c = CHR '','' then [] # split_comma cs
      else (case split_comma cs of [] \<Rightarrow> [[c]] | p # ps \<Rightarrow> (c # p) # ps))"

text \<open>\<open>createAndSaveClass\<close>: the cell texts of one table row.\<close>

definition createAndSaveClass :: "string list \<Rightarrow> system \<Rightarrow> completion \<times> system" where
  "createAndSaveClass classInfo st =
     (if length classInfo \<noteq> 11 then (Throw InvalidClassInfo, st)
      else case new_Class (Str (classInfo ! 0)) (Str (classInfo ! 1))
                  (Some (split_comma (classInfo ! 2))) (Str (classInfo ! 3))
                  (Str (classInfo ! 4)) (Str (classInfo ! 5)) (Str (classInfo ! 6))
                  (Str (classInfo ! 7)) (Str (classInfo ! 8)) (Str (classInfo ! 9))
                  (Str (classInfo ! 10)) of
             Inl e \<Rightarrow> (Throw e, st)
           | Inr c \<Rightarrow> (Normal, st\<lparr>classData := classData st @ [c]\<rparr>))"

text \<open>The loop over the rows of the table: the first throw ends it.\<close>

fun saveRows :: "string list list \<Rightarrow> system \<Rightarrow> completion \<times> system" where
  "saveRows [] st = (Normal, st)"
| "saveRows (row # rows) st =
     (case createAndSaveClass row st of
        (Throw e, st') \<Rightarrow> (Throw e, st')
      | (Normal, st') \<Rightarrow> saveRows rows st')"

text \<open>A value inside a template literal: \<open>`${x}`\<close>.\<close>

fun template :: "jsval \<Rightarrow> string" where
  "template Undefined = ''undefined''"
| "template Null = ''null''"
| "template (Bool b) = (if b then ''true'' else ''false'')"
| "template (Num n) = number_toString n"
| "template (Str s) = s"

text \<open>\<open>subjects.includes(subjectCode)\<close>: only a string equals a string.\<close>

fun includes_js :: "string list \<Rightarrow> jsval \<Rightarrow> bool" where
  "includes_js subs (Str s) = (s \<in> set subs)"
| "includes_js subs _ = False"

text \<open>The guard at the head of \<open>getCourseData\<close>, with the implicit discovery.\<close>

definition discoverIfNeeded :: "network \<Rightarrow> system \<Rightarrow> completion \<times> system" where
  "discoverIfNeeded net st =
     (if \<not> truthy (terms_latest st) \<and> subjects st = None then
        (case getTermsAndSubjects net st of
           (Throw e, st1) \<Rightarrow> (Throw e, st1)
         | (Normal, st1) \<Rightarrow>
             if truthy (terms_latest st1) \<and> subjects st1 \<noteq> None then (Normal, st1)
             else (Throw UnableToGetTerm, st1))
      else (Normal, st))"

text \<open>The branch of \<open>getCourseData\<close> for one subject code (a truthy \<open>subjectCode\<close>).\<close>

definition fetchSubject :: "network \<Rightarrow> jsval \<Rightarrow> jsval \<Rightarrow> system \<Rightarrow> completion \<times> system" where
  "fetchSubject net subjectCode term st =
     (case subjects st of
        None \<Rightarrow> (Throw TypeError, st)
      | Some subs \<Rightarrow>
          if \<not> includes_js subs subjectCode then (Throw (SubjectNotFound (template subjectCode)), st)
          else
           (let st1 = logAndExecuteRateLimit st;
                t = (if truthy term then term else terms_latest st1);
                st2 = st1\<lparr>sent := sent st1 @ [GetResults (template t) (template subjectCode)]\<rparr>
            in case results net (template t) (template subjectCode) of
                 Inl e \<Rightarrow> (Throw e, st2)
               | Inr None \<Rightarrow> (Throw TypeError, st2)
               | Inr (Some table) \<Rightarrow> saveRows table st2))"

text \<open>
  \<open>getCourseData(subjectCode, term)\<close>. Without a (truthy) subject code it calls itself
  for every subject of the list. A call for a truthy code awaits the rate limit before
  anything else, and a call without one reaches the call for the first subject of the list
  before any \<open>await\<close>. So when the list starts with the empty code the calls nest
  synchronously and without bound: the stack overflows, and the operation is rejected with
  a \<open>RangeError\<close>, nothing having been requested. Otherwise every call awaits a fetch
  before it nests further; the first argument bounds the depth of this nesting, and
  \<open>None\<close> is a run that needs more.
\<close>

fun getCourseData :: "nat \<Rightarrow> network \<Rightarrow> jsval \<Rightarrow> jsval \<Rightarrow> system \<Rightarrow> (completion \<times> system) option"
  and forSubjects :: "nat \<Rightarrow> network \<Rightarrow> jsval \<Rightarrow> string list \<Rightarrow> system \<Rightarrow> (completion \<times> system) option"
where
  "getCourseData 0 net subjectCode term st = None"
| "getCourseData (Suc n) net subjectCode term st =
     (case discoverIfNeeded net st of
        (Throw e, st1) \<Rightarrow> Some (Throw e, st1)
      | (Normal, st1) \<Rightarrow>
          if truthy subjectCode then Some (fetchSubject net subjectCode term st1)
          else (case subjects st1 of
                  None \<Rightarrow> Some (Throw TypeError, st1)
                | Some subs \<Rightarrow>
                    if subs \<noteq> [] \<and> hd subs = [] then Some (Throw RangeError, st1)
                    else forSubjects n net term subs st1))"
| "forSubjects n net term [] st = Some (Normal, st)"
| "forSubjects n net term (subject # rest) st =
     (case getCourseData n net (Str subject) (if truthy term then term else terms_latest st) st of
        None \<Rightarrow> None
      | Some (Throw e, st') \<Rightarrow> Some (Throw e, st')
      | Some (Normal, st') \<Rightarrow> forSubjects n net term rest st')"

subsection \<open>Persistence\<close>

text \<open>
  \<open>JSON.stringify\<close> writes the own fields of each \<open>Class\<close> object, \<open>NaN\<close> as \<open>null\<close>,
  and \<open>JSON.parse\<close> reads them back; the text in between is not modelled.
\<close>

fun json_number :: "number \<Rightarrow> jsval" where
  "json_number NaN = Null"
| "json_number (Finite n) = Num (Finite n)"

definition stringify :: "Class \<Rightarrow> IJsonClass" where
  "stringify c = \<lparr>j_crn = json_number (crn' c), j_courseID = Str (courseID' c),
     j_attributes = Some (attributes' c), j_title = Str (title' c),
     j_instructor = Str (instructor' c),
     j_credits = (case credits' c of None \<Rightarrow> Null | Some n \<Rightarrow> json_number n),
     j_times = Str (times' c),
     j_projectedEnrollment = json_number (projectedEnrollment' c),
     j_currentEnrollment = json_number (currentEnrollment' c),
     j_seatsAvailable = json_number (seatsAvailable' c),
     j_status = Str (status' c)\<rparr>"

text \<open>\<open>saveLocation.endsWith('.json')\<close>\<close>

definition endsWith :: "string \<Rightarrow> string \<Rightarrow> bool" where
  "endsWith s suffix = (length suffix \<le> length s \<and> drop (length s - length suffix) s = suffix)"

text \<open>\<open>saveToJson\<close>; the write itself is taken to succeed.\<close>

definition saveToJson :: "string \<Rightarrow> system \<Rightarrow> system" where
  "saveToJson saveLocation st =
     (let loc = (if endsWith saveLocation ''.json'' then saveLocation else saveLocation @ ''.json'')
      in st\<lparr>files := (files st)(loc \<mapsto> JsonArray (map stringify (classData st)))\<rparr>)"

text \<open>The loop of \<open>loadFromJson\<close> over the parsed entries.\<close>

fun loadEntries :: "IJsonClass list \<Rightarrow> system \<Rightarrow> completion \<times> system" where
  "loadEntries [] st = (Normal, st)"
| "loadEntries (entry # others) st =
     (case js_toString (j_crn entry) of
        Inl e \<Rightarrow> (Throw e, st)
      | Inr crn \<Rightarrow>
         (case new_Class (Str crn) (j_courseID entry) (j_attributes entry) (j_title entry)
                 (j_instructor entry) (j_credits entry) (j_times entry)
                 (j_projectedEnrollment entry) (j_currentEnrollment entry)
                 (j_seatsAvailable entry)
                 (Str (if truthy (j_status entry) then ''OPEN'' else ''CLOSED'')) of
            Inl e \<Rightarrow> (Throw e, st)
          | Inr c \<Rightarrow> loadEntries others (st\<lparr>classData := classData st @ [c]\<rparr>)))"

definition loadFromJson :: "string \<Rightarrow> system \<Rightarrow> completion \<times> system" where
  "loadFromJson filepath st =
     (case files st filepath of
        None \<Rightarrow> (Throw ErrorLoadingJson, st)
      | Some NotJson \<Rightarrow> (Throw ErrorLoadingJson, st)
      | Some JsonOther \<Rightarrow> (Throw TypeError, st\<lparr>classData := []\<rparr>)
      | Some (JsonArray data) \<Rightarrow> loadEntries data (st\<lparr>classData := []\<rparr>))"

subsection \<open>Queries\<close>

text \<open>\<open>for (const classEntry of this.classData) if (classEntry.crn === crn) return classEntry;\<close>
  Falling out of the loop returns \<open>undefined\<close>, here \<open>None\<close>.\<close>

fun findClassByCrn_loop :: "Class list \<Rightarrow> string \<Rightarrow> Class option" where
  "findClassByCrn_loop [] crn = None"
| "findClassByCrn_loop (classEntry # rest) crn =
     (if get_crn classEntry = crn then Some classEntry else findClassByCrn_loop rest crn)"

definition findClassByCrn :: "system \<Rightarrow> string \<Rightarrow> Class option" where
  "findClassByCrn st crn = findClassByCrn_loop (classData st) crn"

section \<open>Notions used in the statements\<close>

text \<open>The two-valued status domain.\<close>

definition status_ok :: "Class \<Rightarrow> bool" where
  "status_ok c = (get_status c = ''OPEN'' \<or> get_status c = ''CLOSED'')"

text \<open>
  The traversal as the specification words it: single-subject mode for every subject of
  the list, in list order, one after the other, with one term for all of them; a failure
  ends the traversal and the state reached so far is kept.
\<close>

fun allSubjects_spec :: "network \<Rightarrow> jsval \<Rightarrow> string list \<Rightarrow> system \<Rightarrow> completion \<times> system" where
  "allSubjects_spec net t [] st = (Normal, st)"
| "allSubjects_spec net t (subject # rest) st =
     (case fetchSubject net (Str subject) t st of
        (Throw e, st') \<Rightarrow> (Throw e, st')
      | (Normal, st') \<Rightarrow> allSubjects_spec net t rest st')"

text \<open>Sample data: two table rows, a closed and an open section, and a small site.\<close>

definition biol_row :: "string list" where
  "biol_row = [''10001'', ''BIOL 100'', ''C100, NQR'', ''Intro Biology'', ''Smith'', ''3'',
     ''MWF 9:00'', ''30'', ''25'', ''5*'', ''CLOSED'']"

definition chem_row :: "string list" where
  "chem_row = [''10002'', ''CHEM 100'', [], ''Intro Chemistry'', ''Jones'', ''4'',
     ''TR 11:00'', ''30'', ''30'', ''0'', ''PENDING'']"

definition closed_section :: Class where
  "closed_section = \<lparr>crn' = Finite 10001, courseID' = ''BIOL 100'', attributes' = [''C100'', ''NQR''],
     title' = ''Intro Biology'', instructor' = ''Smith'', credits' = Some (Finite 3),
     times' = ''MWF 9:00'', projectedEnrollment' = Finite 30, currentEnrollment' = Finite 25,
     seatsAvailable' = Finite 5, status' = ''CLOSED''\<rparr>"

definition open_section :: Class where
  "open_section = \<lparr>crn' = Finite 10002, courseID' = ''CHEM 100'', attributes' = [[]],
     title' = ''Intro Chemistry'', instructor' = ''Jones'', credits' = None,
     times' = ''TR 11:00'', projectedEnrollment' = Finite 30, currentEnrollment' = Finite 30,
     seatsAvailable' = Finite 0, status' = ''OPEN''\<rparr>"

definition site :: network where
  "site = \<lparr>listing = Inr \<lparr>term_code = Some [''202310'', ''202320'', ''0''],
                           term_subj = Some [''0'', ''BIOL'', ''CHEM'']\<rparr>,
     results = (\<lambda>t s. if s = ''BIOL'' then Inr (Some [biol_row])
                       else if s = ''CHEM'' then Inr (Some [chem_row]) else Inr None)\<rparr>"

text \<open>
  The number a string of decimal digits denotes, by position: the digit at index \<open>i\<close>
  counts \<open>10 ^ (length ds - 1 - i)\<close> times.
\<close>

definition decimal :: "string \<Rightarrow> nat" where
  "decimal ds = (\<Sum>i<length ds. (of_char (ds ! i) - 48) * 10 ^ (length ds - Suc i))"

text \<open>Every record of the collection has a status of the domain.\<close>

definition records_ok :: "system \<Rightarrow> bool" where
  "records_ok st = (\<forall>c\<in>set (classData st). status_ok c)"

text \<open>A listing page whose second-to-last term option has an empty value.\<close>

definition blank_term_site :: network where
  "blank_term_site = \<lparr>listing = Inr \<lparr>term_code = Some [[], ''0''], term_subj = Some [''0'', ''BIOL'']\<rparr>,
     results = (\<lambda>t s. Inr (Some [biol_row]))\<rparr>"

section \<open>Text normalisation\<close>

lemma is_digit10_range: "is_digit 10 c \<Longrightarrow> 48 \<le> (of_char c :: nat) \<and> (of_char c :: nat) \<le> 57"
  by (auto simp: is_digit_def digit_val_def Let_def split: if_splits)

lemma is_digit10_not_special:
  assumes "is_digit 10 c"
  shows "\<not> is_space c" "c \<noteq> CHR ''*''" "c \<noteq> CR" "c \<noteq> LF" "c \<noteq> CHR ''-''" "c \<noteq> CHR ''+''"
    "c \<noteq> CHR ''x''" "c \<noteq> CHR ''X''"
  using is_digit10_range[OF assms] by (auto simp: is_space_def CR_def LF_def)

lemma space_or_star_not_digit:
  assumes "c = CHR ''*'' \<or> is_space c"
  shows "\<not> is_digit 10 c"
proof
  assume "is_digit 10 c"
  then have "\<not> is_space c" "c \<noteq> CHR ''*''"
    by (rule is_digit10_not_special(1), rule is_digit10_not_special(2))
  with assms show False by simp
qed

lemma space_or_star_not_x:
  "c = CHR ''*'' \<or> is_space c \<Longrightarrow> c \<noteq> CHR ''x'' \<and> c \<noteq> CHR ''X''"
  unfolding is_space_def by (elim disjE) simp_all

lemma sign_chars:
  "\<not> is_space (CHR ''-'')" "\<not> is_space (CHR ''+'')"
  "CHR ''-'' \<noteq> CR" "CHR ''-'' \<noteq> LF" "CHR ''+'' \<noteq> CR" "CHR ''+'' \<noteq> LF"
  "CHR ''-'' \<noteq> CHR ''*''" "CHR ''+'' \<noteq> CHR ''*''"
  by (simp_all add: is_space_def CR_def LF_def)

lemma strip_newlines_append: "strip_newlines (a @ b) = strip_newlines a @ strip_newlines b"
  by (simp add: strip_newlines_def)

lemma set_strip_newlines: "set (strip_newlines s) \<subseteq> set s"
  by (auto simp: strip_newlines_def)

lemma replace_star_append: "CHR ''*'' \<notin> set a \<Longrightarrow> replace_star (a @ b) = a @ replace_star b"
  by (induction a) auto

lemma set_replace_star: "set (replace_star s) \<subseteq> set s"
  by (induction s) auto

lemma trim_leading:
  assumes "\<forall>c\<in>set p. is_space c"
  shows "trim (p @ s) = trim s"
proof -
  have "dropWhile is_space (p @ s) = dropWhile is_space s"
    using assms by (intro dropWhile_append2) simp
  then show ?thesis by (simp add: trim_def)
qed

lemma space_not_star: "is_space c \<Longrightarrow> c \<noteq> CHR ''*''"
  unfolding is_space_def by (elim disjE) simp_all

lemma takeWhile_digits:
  assumes "\<forall>c\<in>set ds. is_digit 10 c" "\<forall>c\<in>set r. \<not> is_digit 10 c"
  shows "takeWhile (is_digit 10) (ds @ r) = ds"
  using assms by (cases r) (auto simp: takeWhile_append)

lemma read_sign_digits:
  assumes "is_digit 10 d" "sg = [] \<or> sg = ''-'' \<or> sg = ''+''"
  shows "read_sign (sg @ d # rest) = (sg = ''-'', d # rest)"
proof -
  have "d \<noteq> CHR ''-''" "d \<noteq> CHR ''+''"
    by (rule is_digit10_not_special(5)[OF assms(1)], rule is_digit10_not_special(6)[OF assms(1)])
  with assms(2) show ?thesis
    by (elim disjE) (simp_all add: read_sign_def)
qed

lemma read_radix_decimal:
  assumes "\<forall>c\<in>set s. c \<noteq> CHR ''x'' \<and> c \<noteq> CHR ''X''"
  shows "read_radix s = (10, s)"
proof (cases s)
  case Nil
  then show ?thesis by (simp add: read_radix_def)
next
  case (Cons c cs)
  then show ?thesis using assms
    by (cases cs) (simp_all add: read_radix_def)
qed

lemma parseInt_decimal:
  assumes ds: "ds \<noteq> []" "\<forall>c\<in>set ds. is_digit 10 c"
    and r: "\<forall>c\<in>set r. c = CHR ''*'' \<or> is_space c"
    and sg: "sg = [] \<or> sg = ''-'' \<or> sg = ''+''"
  shows "parseInt (sg @ ds @ r) =
     Finite ((if sg = ''-'' then - 1 else 1) * int (digits_value 10 0 ds))"
proof -
  obtain d ds' where dsC: "ds = d # ds'" using ds(1) by (cases ds) auto
  have d: "is_digit 10 d" using ds(2) dsC by simp
  have rnd: "\<forall>c\<in>set r. \<not> is_digit 10 c"
  proof
    fix c assume "c \<in> set r"
    then have "c = CHR ''*'' \<or> is_space c" using r by simp
    then show "\<not> is_digit 10 c" by (rule space_or_star_not_digit)
  qed
  have nox: "\<forall>c\<in>set (ds @ r). c \<noteq> CHR ''x'' \<and> c \<noteq> CHR ''X''"
  proof
    fix c assume "c \<in> set (ds @ r)"
    then have "is_digit 10 c \<or> (c = CHR ''*'' \<or> is_space c)"
      using r ds(2) by auto
    then show "c \<noteq> CHR ''x'' \<and> c \<noteq> CHR ''X''"
    proof
      assume "is_digit 10 c"
      then show ?thesis by (intro conjI is_digit10_not_special(7,8))
    next
      assume "c = CHR ''*'' \<or> is_space c"
      then show ?thesis by (rule space_or_star_not_x)
    qed
  qed
  have tw: "takeWhile (is_digit 10) (ds @ r) = ds"
    using takeWhile_digits ds(2) rnd by blast
  have "\<not> is_space (hd (sg @ ds @ r))"
    using sg is_digit10_not_special(1)[OF d] sign_chars(1,2) by (elim disjE) (simp_all add: dsC)
  moreover have "sg @ ds @ r \<noteq> []" using ds(1) by simp
  ultimately have front: "dropWhile is_space (sg @ ds @ r) = sg @ ds @ r"
    by (cases "sg @ ds @ r") simp_all
  have sign: "read_sign (sg @ ds @ r) = (sg = ''-'', ds @ r)"
    using read_sign_digits[OF d sg] by (simp add: dsC)
  have radix: "read_radix (ds @ r) = (10, ds @ r)"
    using read_radix_decimal[OF nox] .
  show ?thesis
    unfolding parseInt_def front sign using tw ds(1) by (simp add: Let_def radix)
qed

lemma is_space_iff:
  "is_space c \<longleftrightarrow> c \<in> {CHR 0x09, CHR 0x0A, CHR 0x0B, CHR 0x0C, CHR 0x0D, CHR 0x20, CHR 0xA0}"
  by (simp add: is_space_def)

lemma decimal_digit:
  assumes "c \<in> set ''0123456789''"
  shows "is_digit 10 c" "digit_val 10 c = Some (of_char c - 48)"
proof -
  from assms have "c = CHR ''0'' \<or> c = CHR ''1'' \<or> c = CHR ''2'' \<or> c = CHR ''3'' \<or> c = CHR ''4''
      \<or> c = CHR ''5'' \<or> c = CHR ''6'' \<or> c = CHR ''7'' \<or> c = CHR ''8'' \<or> c = CHR ''9''"
    by simp
  then have "digit_val 10 c = Some (of_char c - 48)"
    by (elim disjE) (simp_all add: digit_val_def)
  then show "digit_val 10 c = Some (of_char c - 48)" "is_digit 10 c"
    by (simp_all add: is_digit_def)
qed

lemma digits_value_decimal:
  assumes "\<forall>c\<in>set ds. c \<in> set ''0123456789''"
  shows "digits_value 10 acc ds = acc * 10 ^ length ds + decimal ds"
  using assms
proof (induction ds arbitrary: acc)
  case Nil
  then show ?case by (simp add: decimal_def)
next
  case (Cons c cs)
  have c: "digit_val 10 c = Some (of_char c - 48)"
    using Cons.prems decimal_digit(2)[of c] by simp
  have rest: "\<forall>c\<in>set cs. c \<in> set ''0123456789''"
    using Cons.prems by simp
  have split: "decimal (c # cs) = (of_char c - 48) * 10 ^ length cs + decimal cs"
    unfolding decimal_def length_Cons by (subst sum.lessThan_Suc_shift) simp
  have "digits_value 10 acc (c # cs) = digits_value 10 (acc * 10 + (of_char c - 48)) cs"
    using c by simp
  also have "\<dots> = (acc * 10 + (of_char c - 48)) * 10 ^ length cs + decimal cs"
    using Cons.IH[OF rest] .
  also have "\<dots> = acc * 10 ^ length (c # cs) + decimal (c # cs)"
    using split by (simp add: algebra_simps)
  finally show ?case .
qed

lemma last_kept_by_trim:
  assumes "a \<noteq> []" "\<not> is_space (hd a)" "\<not> is_space (last a)"
  shows "\<exists>b'. trim (a @ b) = a @ b' \<and> set b' \<subseteq> set b \<and> (b' = [] \<or> \<not> is_space (last b'))"
proof -
  have front: "dropWhile is_space (a @ b) = a @ b"
    using assms(1,2) by (cases a) auto
  show ?thesis
  proof (cases "\<forall>x\<in>set b. is_space x")
    case True
    have "dropWhile is_space (rev a) = rev a"
      using assms(1,3) by (cases "rev a") (auto simp: last_rev hd_rev)
    with True front have "trim (a @ b) = a @ [] \<and> set [] \<subseteq> set b \<and> ([] = [] \<or> \<not> is_space (last []))"
      by (simp add: trim_def dropWhile_append)
    then show ?thesis by (rule exI)
  next
    case False
    let ?d = "dropWhile is_space (rev b)"
    from False obtain x where x: "x \<in> set (rev b)" "\<not> is_space x" by auto
    then have "dropWhile is_space (rev b @ rev a) = ?d @ rev a"
      by (rule dropWhile_append1)
    with front have t: "trim (a @ b) = a @ rev ?d"
      by (simp add: trim_def)
    have sub: "set (rev ?d) \<subseteq> set b"
    proof
      fix y assume "y \<in> set (rev ?d)"
      then have "y \<in> set ?d" by simp
      then have "y \<in> set (rev b)" by (rule set_dropWhileD)
      then show "y \<in> set b" by simp
    qed
    have ne: "?d \<noteq> []"
      using x by (simp add: dropWhile_eq_Nil_conv) blast
    then have "\<not> is_space (hd ?d)" by (rule hd_dropWhile)
    then have "\<not> is_space (last (rev ?d))" using ne by (simp add: last_rev)
    with t sub have "trim (a @ b) = a @ rev ?d \<and> set (rev ?d) \<subseteq> set b
        \<and> (rev ?d = [] \<or> \<not> is_space (last (rev ?d)))" by simp
    then show ?thesis by (rule exI)
  qed
qed

lemma replace_star_single:
  assumes "count_list b (CHR ''*'') \<le> 1"
  shows "\<exists>r'. replace_star (b @ r) = filter (\<lambda>c. c \<noteq> CHR ''*'') b @ r' \<and> set r' \<subseteq> set r"
  using assms
proof (induction b)
  case Nil
  have "replace_star ([] @ r) = filter (\<lambda>c. c \<noteq> CHR ''*'') [] @ replace_star r
      \<and> set (replace_star r) \<subseteq> set r"
    using set_replace_star by simp
  then show ?case by (rule exI)
next
  case (Cons c cs)
  show ?case
  proof (cases "c = CHR ''*''")
    case True
    with Cons.prems have "count_list cs (CHR ''*'') = 0" by simp
    then have "CHR ''*'' \<notin> set cs" by (simp add: count_list_0_iff)
    then have "filter (\<lambda>c. c \<noteq> CHR ''*'') cs = cs"
      by (intro filter_True) metis
    with True have "replace_star ((c # cs) @ r) = filter (\<lambda>c. c \<noteq> CHR ''*'') (c # cs) @ r
        \<and> set r \<subseteq> set r" by simp
    then show ?thesis by (rule exI)
  next
    case False
    with Cons.prems have "count_list cs (CHR ''*'') \<le> 1" by simp
    from Cons.IH[OF this] obtain r' where
      "replace_star (cs @ r) = filter (\<lambda>c. c \<noteq> CHR ''*'') cs @ r'" "set r' \<subseteq> set r" by blast
    with False have "replace_star ((c # cs) @ r) = filter (\<lambda>c. c \<noteq> CHR ''*'') (c # cs) @ r'
        \<and> set r' \<subseteq> set r" by simp
    then show ?thesis by (rule exI)
  qed
qed

lemma count_strip_newlines:
  "count_list (strip_newlines b) (CHR ''*'') = count_list b (CHR ''*'')"
  by (induction b) (simp_all add: strip_newlines_def CR_def LF_def)

lemma space_not_digit:
  assumes "is_space c"
  shows "\<not> is_digit 10 c" "\<not> is_digit 16 c" "c \<noteq> CHR ''x''" "c \<noteq> CHR ''X''" "c \<noteq> CHR ''0''"
    "c \<noteq> CHR ''-''" "c \<noteq> CHR ''+''"
  using assms unfolding is_space_def
  by (elim disjE; simp add: is_digit_def digit_val_def)+

lemma read_sign_spaces:
  assumes "t \<noteq> []"
  shows "read_sign (t @ q) = (fst (read_sign t), snd (read_sign t) @ q)"
  using assms by (cases t) (simp_all add: read_sign_def)

lemma read_radix_spaces:
  assumes "\<forall>c\<in>set q. is_space c"
  shows "read_radix (s @ q) = (fst (read_radix s), snd (read_radix s) @ q)"
proof (cases s)
  case Nil
  show ?thesis
  proof (cases q)
    case Nil
    with \<open>s = []\<close> show ?thesis by (simp add: read_radix_def)
  next
    case (Cons x xs)
    then have "x \<noteq> CHR ''0''" using assms space_not_digit(5) by simp
    with Cons \<open>s = []\<close> show ?thesis by (cases xs) (simp_all add: read_radix_def)
  qed
next
  case (Cons c cs)
  show ?thesis
  proof (cases cs)
    case Nil
    show ?thesis
    proof (cases q)
      case Nil
      with \<open>s = c # cs\<close> \<open>cs = []\<close> show ?thesis by (simp add: read_radix_def)
    next
      case (Cons x xs)
      then have "x \<noteq> CHR ''x''" "x \<noteq> CHR ''X''"
        using assms space_not_digit(3,4) by simp_all
      with Cons \<open>s = c # cs\<close> \<open>cs = []\<close> show ?thesis by (simp add: read_radix_def)
    qed
  next
    case (Cons d ds)
    with \<open>s = c # cs\<close> show ?thesis by (simp add: read_radix_def)
  qed
qed

lemma takeWhile_digit_spaces:
  assumes "\<forall>c\<in>set q. is_space c" "radix = 10 \<or> radix = 16"
  shows "takeWhile (is_digit radix) (s @ q) = takeWhile (is_digit radix) s"
proof -
  have "takeWhile (is_digit radix) q = []"
  proof (cases q)
    case Nil
    then show ?thesis by simp
  next
    case (Cons x xs)
    then have "\<not> is_digit radix x"
      using assms space_not_digit(1,2)[of x] by auto
    with Cons show ?thesis by simp
  qed
  then have q: "takeWhile (is_digit radix) q = []" .
  show ?thesis
  proof (cases "\<forall>x\<in>set s. is_digit radix x")
    case True
    then have "takeWhile (is_digit radix) (s @ q) = s @ takeWhile (is_digit radix) q"
      by (intro takeWhile_append2) simp
    also have "\<dots> = s" using q by simp
    finally have whole: "takeWhile (is_digit radix) (s @ q) = s" .
    have "takeWhile (is_digit radix) s = s"
      unfolding takeWhile_eq_all_conv using True .
    then show ?thesis using whole by (rule ssubst)
  next
    case False
    then obtain x where "x \<in> set s" "\<not> is_digit radix x" by auto
    then show ?thesis by (rule takeWhile_append1)
  qed
qed

lemma read_radix_cases: "fst (read_radix s) = 10 \<or> fst (read_radix s) = 16"
  by (simp add: read_radix_def split: list.splits)

text \<open>
  Trimming does not change what \<open>parseInt\<close> returns: \<open>parseInt\<close> skips leading white
  space itself and stops at the first character that is not a digit.
\<close>

lemma parseInt_trim: "parseInt (trim s) = parseInt s"
proof -
  define u where "u = dropWhile is_space s"
  define q where "q = rev (takeWhile is_space (rev u))"
  define t where "t = rev (dropWhile is_space (rev u))"
  have u_split: "u = t @ q"
  proof -
    have "rev (takeWhile is_space (rev u) @ dropWhile is_space (rev u)) = rev (rev u)"
      by (simp only: takeWhile_dropWhile_id)
    then have "rev (dropWhile is_space (rev u)) @ rev (takeWhile is_space (rev u)) = u"
      by (simp only: rev_append rev_rev_ident)
    then show ?thesis unfolding t_def q_def by (rule sym)
  qed
  have q_space: "\<forall>c\<in>set q. is_space c"
    using set_takeWhileD[of _ is_space "rev u"] by (auto simp: q_def)
  have trim_t: "trim s = t" by (simp add: trim_def t_def u_def)
  have u_head: "u = [] \<or> \<not> is_space (hd u)"
    using hd_dropWhile[of is_space s] by (auto simp: u_def)
  show ?thesis
  proof (cases "t = []")
    case True
    then have "u = q" using u_split by simp
    then have "u = []"
    proof (cases u)
      case Nil
      then show ?thesis .
    next
      case (Cons x xs)
      then have "\<not> is_space x" using u_head by simp
      moreover have "x \<in> set q" using \<open>u = q\<close> Cons by (metis list.set_intros(1))
      then have "is_space x" using q_space by simp
      ultimately show ?thesis by simp
    qed
    then have A: "dropWhile is_space s = []" by (simp add: u_def)
    have B: "dropWhile is_space (trim s) = []" using trim_t True by simp
    show ?thesis unfolding parseInt_def A B by (rule refl)
  next
    case False
    have "hd t = hd u" using u_split False by simp
    then have "\<not> is_space (hd t)" using u_head u_split False by auto
    then have drop_t: "dropWhile is_space t = t" using False by (cases t) simp_all
    obtain neg s1 where sign: "read_sign t = (neg, s1)" by (cases "read_sign t")
    obtain radix s2 where radix: "read_radix s1 = (radix, s2)" by (cases "read_radix s1")
    have sign_u: "read_sign u = (neg, s1 @ q)"
      using read_sign_spaces[OF False, of q] sign u_split by simp
    have radix_u: "read_radix (s1 @ q) = (radix, s2 @ q)"
      using read_radix_spaces[OF q_space, of s1] radix by simp
    have "radix = 10 \<or> radix = 16" using read_radix_cases[of s1] radix by simp
    then have digits_u: "takeWhile (is_digit radix) (s2 @ q) = takeWhile (is_digit radix) s2"
      using takeWhile_digit_spaces[OF q_space] by simp
    have "parseInt (trim s) = (let z = takeWhile (is_digit radix) s2 in
        if z = [] then NaN else Finite ((if neg then - 1 else 1) * int (digits_value radix 0 z)))"
      using trim_t drop_t sign radix by (simp add: parseInt_def)
    moreover have "parseInt s = (let z = takeWhile (is_digit radix) s2 in
        if z = [] then NaN else Finite ((if neg then - 1 else 1) * int (digits_value radix 0 z)))"
      using sign_u radix_u digits_u by (simp add: parseInt_def u_def[symmetric])
    ultimately show ?thesis by simp
  qed
qed

text \<open>
  C7. Take a raw seats-available text in which an integer (an optional sign and decimal
  digits, of a value up to \<open>2^53\<close>) is followed by any number of asterisks, white-space
  and line-break characters; white space may precede it, line breaks may stand anywhere
  inside it, and it may carry one asterisk of its own, in front or inside. The setter
  deletes every carriage return and line feed, removes the first asterisk and trims both
  ends, so that the text it parses starts with the sign and the digits, followed at most
  by something that ends in an asterisk; and it stores the integer. In particular
  \<open>"12*\n"\<close> is stored as 12.
\<close>

theorem seatsAvailable_normalization:
  assumes ds: "ds \<noteq> []" "\<forall>c\<in>set ds. c \<in> set ''0123456789''"
    and sg: "sg = [] \<or> sg = ''-'' \<or> sg = ''+''"
    and body: "filter (\<lambda>c. c \<noteq> CHR 0x0D \<and> c \<noteq> CHR 0x0A \<and> c \<noteq> CHR ''*'') body = sg @ ds"
      "count_list body (CHR ''*'') \<le> 1"
    and pre: "\<forall>c\<in>set pre. c \<in> {CHR 0x09, CHR 0x0A, CHR 0x0B, CHR 0x0C, CHR 0x0D, CHR 0x20, CHR 0xA0}"
    and suffix: "\<forall>c\<in>set suffix. c = CHR ''*''
        \<or> c \<in> {CHR 0x09, CHR 0x0A, CHR 0x0B, CHR 0x0C, CHR 0x0D, CHR 0x20, CHR 0xA0}"
    and bound: "decimal ds \<le> 2 ^ 53"
  shows "(\<exists>rest. trim (replace_star (strip_newlines (pre @ body @ suffix))) = sg @ ds @ rest
            \<and> (\<forall>c\<in>set rest. c = CHR ''*'' \<or> c \<in> {CHR 0x09, CHR 0x0B, CHR 0x0C, CHR 0x20, CHR 0xA0})
            \<and> (rest = [] \<or> last rest = CHR ''*''))
     \<and> set_seatsAvailable (Str (pre @ body @ suffix)) c =
          Inr (c\<lparr>seatsAvailable' := Finite ((if sg = ''-'' then - 1 else 1) * int (decimal ds))\<rparr>)"
proof -
  let ?a = "sg @ ds"
  let ?P = "strip_newlines pre"
  let ?B = "strip_newlines body"
  let ?S = "strip_newlines suffix"
  have digits: "\<forall>c\<in>set ds. is_digit 10 c"
    using ds(2) decimal_digit(1) by blast
  have sg_plain: "\<forall>x\<in>set sg. \<not> is_space x"
    using sg by (elim disjE) (simp_all add: sign_chars)
  have ds_plain: "\<forall>x\<in>set ds. \<not> is_space x"
    using digits is_digit10_not_special(1) by blast
  have plain: "\<forall>x\<in>set ?a. \<not> is_space x"
    using sg_plain ds_plain by (simp add: ball_Un)
  have P_space: "\<forall>x\<in>set ?P. is_space x"
    using pre set_strip_newlines[of pre] by (simp add: subset_iff is_space_iff)
  have P_star: "CHR ''*'' \<notin> set ?P"
    using P_space space_not_star by blast
  have S_chars: "\<forall>x\<in>set ?S. (x = CHR ''*'' \<or> is_space x) \<and> x \<noteq> CR \<and> x \<noteq> LF"
    using suffix by (simp add: strip_newlines_def is_space_iff)
  have B_filter: "filter (\<lambda>c. c \<noteq> CHR ''*'') ?B = ?a"
    using body(1) by (simp add: strip_newlines_def CR_def LF_def)
  have B_count: "count_list ?B (CHR ''*'') \<le> 1"
    using body(2) by (simp add: count_strip_newlines)
  obtain r' where r': "replace_star (?B @ ?S) = ?a @ r'" "set r' \<subseteq> set ?S"
    using replace_star_single[OF B_count, of ?S] B_filter by auto
  have "strip_newlines (pre @ body @ suffix) = ?P @ ?B @ ?S"
    by (simp add: strip_newlines_append)
  then have replaced: "replace_star (strip_newlines (pre @ body @ suffix)) = ?P @ ?a @ r'"
    using replace_star_append[OF P_star, of "?B @ ?S"] r'(1) by simp
  have a_ne: "?a \<noteq> []" using ds(1) by simp
  have "hd ?a \<in> set ?a" using a_ne by (rule hd_in_set)
  then have a_hd: "\<not> is_space (hd ?a)" using plain by simp
  have "last ?a \<in> set ?a" using a_ne by (rule last_in_set)
  then have a_last: "\<not> is_space (last ?a)" using plain by simp
  obtain rest where rest: "trim (?a @ r') = ?a @ rest" "set rest \<subseteq> set r'"
      "rest = [] \<or> \<not> is_space (last rest)"
    using last_kept_by_trim[OF a_ne a_hd a_last] by blast
  have rest_S: "set rest \<subseteq> set ?S"
    using rest(2) r'(2) by (rule subset_trans)
  have rest_chars: "\<forall>x\<in>set rest. (x = CHR ''*'' \<or> is_space x) \<and> x \<noteq> CR \<and> x \<noteq> LF"
    using rest_S S_chars by (simp add: subset_iff)
  have parsed_text: "trim (replace_star (strip_newlines (pre @ body @ suffix))) = sg @ ds @ rest"
    using replaced trim_leading[OF P_space, of "?a @ r'"] rest(1) by simp
  have rest_listed: "\<forall>x\<in>set rest. x = CHR ''*'' \<or> x \<in> {CHR 0x09, CHR 0x0B, CHR 0x0C, CHR 0x20, CHR 0xA0}"
  proof
    fix x assume "x \<in> set rest"
    then have "(x = CHR ''*'' \<or> is_space x) \<and> x \<noteq> CR \<and> x \<noteq> LF" using rest_chars by simp
    then show "x = CHR ''*'' \<or> x \<in> {CHR 0x09, CHR 0x0B, CHR 0x0C, CHR 0x20, CHR 0xA0}"
      by (simp add: is_space_def CR_def LF_def) fast
  qed
  have rest_end: "rest = [] \<or> last rest = CHR ''*''"
  proof (cases "rest = []")
    case True
    then show ?thesis by simp
  next
    case False
    then have "last rest \<in> set rest" by (rule last_in_set)
    then have "last rest = CHR ''*'' \<or> is_space (last rest)" using rest_chars by simp
    moreover have "\<not> is_space (last rest)" using rest(3) False by simp
    ultimately show ?thesis by simp
  qed
  have rest_marks: "\<forall>x\<in>set rest. x = CHR ''*'' \<or> is_space x"
    using rest_chars by simp
  have "parseInt (sg @ ds @ rest) =
      Finite ((if sg = ''-'' then - 1 else 1) * int (digits_value 10 0 ds))"
    using parseInt_decimal[OF ds(1) digits rest_marks sg] .
  then have "parseInt (sg @ ds @ rest) = Finite ((if sg = ''-'' then - 1 else 1) * int (decimal ds))"
    using digits_value_decimal[OF ds(2), of 0] by simp
  then have stored: "set_seatsAvailable (Str (pre @ body @ suffix)) c =
      Inr (c\<lparr>seatsAvailable' := Finite ((if sg = ''-'' then - 1 else 1) * int (decimal ds))\<rparr>)"
    using parsed_text by (simp add: set_seatsAvailable_def)
  show ?thesis
  proof (intro conjI exI[of _ rest])
    show "trim (replace_star (strip_newlines (pre @ body @ suffix))) = sg @ ds @ rest"
      by (rule parsed_text)
    show "\<forall>c\<in>set rest. c = CHR ''*'' \<or> c \<in> {CHR 0x09, CHR 0x0B, CHR 0x0C, CHR 0x20, CHR 0xA0}"
      by (rule rest_listed)
    show "rest = [] \<or> last rest = CHR ''*''"
      by (rule rest_end)
    show "set_seatsAvailable (Str (pre @ body @ suffix)) c =
        Inr (c\<lparr>seatsAvailable' := Finite ((if sg = ''-'' then - 1 else 1) * int (decimal ds))\<rparr>)"
      by (rule stored)
  qed
qed

lemma decimal_samples: "decimal ''12'' = 12" "decimal ''5'' = 5" "decimal ''3'' = 3"
  by (simp_all add: decimal_def lessThan_Suc numeral_2_eq_2)

theorem seatsAvailable_normalization_witness:
  "set_seatsAvailable (Str (''12*'' @ [CHR 0x0A])) blank = Inr (blank\<lparr>seatsAvailable' := Finite 12\<rparr>)
   \<and> set_seatsAvailable (Str ''*5'') blank = Inr (blank\<lparr>seatsAvailable' := Finite 5\<rparr>)
   \<and> set_seatsAvailable (Str (''1'' @ [CHR 0x0D, CHR 0x0A] @ ''2'')) blank
       = Inr (blank\<lparr>seatsAvailable' := Finite 12\<rparr>)
   \<and> set_seatsAvailable (Str ([CHR 0x0A] @ '' -3 * '' @ [CHR 0x0D, CHR 0x0A])) blank
       = Inr (blank\<lparr>seatsAvailable' := Finite (- 3)\<rparr>)"
proof -
  have a: "set_seatsAvailable (Str (''12*'' @ [CHR 0x0A])) blank = Inr (blank\<lparr>seatsAvailable' := Finite 12\<rparr>)"
    using seatsAvailable_normalization [of "''12''" "[]" "''12''" "[]" "''*'' @ [CHR 0x0A]" blank, THEN conjunct2]
    by (simp add: decimal_samples)
  have b: "set_seatsAvailable (Str ''*5'') blank = Inr (blank\<lparr>seatsAvailable' := Finite 5\<rparr>)"
    using seatsAvailable_normalization [of "''5''" "[]" "''*5''" "[]" "[]" blank, THEN conjunct2]
    by (simp add: decimal_samples)
  have c: "set_seatsAvailable (Str (''1'' @ [CHR 0x0D, CHR 0x0A] @ ''2'')) blank
       = Inr (blank\<lparr>seatsAvailable' := Finite 12\<rparr>)"
    using seatsAvailable_normalization [of "''12''" "[]" "''1'' @ [CHR 0x0D, CHR 0x0A] @ ''2''" "[]" "[]" blank,
        THEN conjunct2]
    by (simp add: decimal_samples)
  have d: "set_seatsAvailable (Str ([CHR 0x0A] @ '' -3 * '' @ [CHR 0x0D, CHR 0x0A])) blank
       = Inr (blank\<lparr>seatsAvailable' := Finite (- 3)\<rparr>)"
    using seatsAvailable_normalization [of "''3''" "''-''" "''-3''" "[CHR 0x0A] @ '' ''"
        "'' * '' @ [CHR 0x0D, CHR 0x0A]" blank, THEN conjunct2]
    by (simp add: decimal_samples)
  from a b c d show ?thesis by (intro conjI)
qed

section \<open>The status domain\<close>

text \<open>
  C3, as the claim states it, fails: a record constructed without a status is not rejected;
  its status is stored as \<open>CLOSED\<close>.
\<close>

theorem status_absent_counterexample:
  "new_Class (Str ''10001'') (Str ''BIOL 100'') (Some [''C100'', ''NQR'']) (Str ''Intro Biology'')
     (Str ''Smith'') (Str ''3'') (Str ''MWF 9:00'') (Str ''30'') (Str ''25'') (Str ''5*'') Undefined
   = Inr closed_section
   \<and> get_status closed_section = ''CLOSED''"
  by (simp add: get_status_def new_Class_def andThen_def blank_def closed_section_def set_crn_def set_courseID_def
      set_attributes_def set_title_def set_instructor_def set_credits_def set_times_def
      set_projectedEnrollment_def set_currentEnrollment_def set_seatsAvailable_def
      clean_or_empty_def to_int_def strip_newlines_def trim_def is_space_def CR_def LF_def
      parseInt_def read_sign_def read_radix_def is_digit_def digit_val_def Let_def)

text \<open>
  C3, amended. For a status given as a string, only the exact tokens \<open>OPEN\<close> and
  \<open>CLOSED\<close> are accepted and stored, by the setter and at construction; every other
  string, the empty one included, makes the setter and the construction fail. An absent
  status (\<open>undefined\<close> or \<open>null\<close>) is stored as \<open>CLOSED\<close>.
\<close>

theorem status_domain:
  "(s = ''OPEN'' \<or> s = ''CLOSED'' \<longrightarrow> set_status (Str s) c = Inr (c\<lparr>status' := s\<rparr>))
   \<and> (s \<noteq> ''OPEN'' \<and> s \<noteq> ''CLOSED'' \<longrightarrow> set_status (Str s) c = Inl IncorrectStatus)
   \<and> (s \<noteq> ''OPEN'' \<and> s \<noteq> ''CLOSED'' \<longrightarrow> (\<exists>e. new_Class a1 a2 a3 a4 a5 a6 a7 a8 a9 a10 (Str s) = Inl e))
   \<and> ((s = ''OPEN'' \<or> s = ''CLOSED'') \<and> new_Class a1 a2 a3 a4 a5 a6 a7 a8 a9 a10 (Str s) = Inr c'
        \<longrightarrow> get_status c' = s)
   \<and> set_status (Str []) c = Inl IncorrectStatus
   \<and> set_status Undefined c = Inr (c\<lparr>status' := ''CLOSED''\<rparr>)
   \<and> set_status Null c = Inr (c\<lparr>status' := ''CLOSED''\<rparr>)"
proof -
  have fail: "\<exists>e. new_Class a1 a2 a3 a4 a5 a6 a7 a8 a9 a10 (Str s) = Inl e"
    if "s \<noteq> ''OPEN'' \<and> s \<noteq> ''CLOSED''"
    using that unfolding new_Class_def
    by (cases "andThen (andThen (andThen (andThen (andThen (andThen (andThen (andThen (andThen
         (set_crn a1 blank) (set_courseID a2)) (set_attributes a3)) (set_title a4))
         (set_instructor a5)) (set_credits a6)) (set_times a7)) (set_projectedEnrollment a8))
         (set_currentEnrollment a9)) (set_seatsAvailable a10)") (simp_all add: andThen_def)
  have stored: "get_status c' = s"
    if "s = ''OPEN'' \<or> s = ''CLOSED''" "new_Class a1 a2 a3 a4 a5 a6 a7 a8 a9 a10 (Str s) = Inr c'"
    using that unfolding new_Class_def
    by (cases "andThen (andThen (andThen (andThen (andThen (andThen (andThen (andThen (andThen
         (set_crn a1 blank) (set_courseID a2)) (set_attributes a3)) (set_title a4))
         (set_instructor a5)) (set_credits a6)) (set_times a7)) (set_projectedEnrollment a8))
         (set_currentEnrollment a9)) (set_seatsAvailable a10)")
       (auto simp: andThen_def get_status_def)
  show ?thesis using fail stored by auto
qed

theorem status_domain_witness:
  "set_status (Str ''OPEN'') blank = Inr (blank\<lparr>status' := ''OPEN''\<rparr>)
   \<and> set_status (Str ''PENDING'') blank = Inl IncorrectStatus
   \<and> (\<exists>e. new_Class (Str ''1'') Null (Some []) Null Null Null Null (Str ''1'') (Str ''1'') (Str ''1'')
             (Str ''open'') = Inl e)"
  using status_domain [of "''OPEN''" blank]
    status_domain [of "''PENDING''" blank]
    status_domain [of "''open''" blank "Str ''1''" Null "Some []" Null Null Null Null "Str ''1''"
      "Str ''1''" "Str ''1''"]
  by simp

section \<open>Queries\<close>

lemma findClassByCrn_loop_first:
  "\<forall>p\<in>set pre. get_crn p \<noteq> crn \<Longrightarrow> get_crn c = crn \<Longrightarrow>
     findClassByCrn_loop (pre @ c # post) crn = Some c"
  by (induction pre) simp_all

lemma findClassByCrn_loop_none:
  "\<forall>c\<in>set cs. get_crn c \<noteq> crn \<Longrightarrow> findClassByCrn_loop cs crn = None"
  by (induction cs) simp_all

text \<open>
  C8. \<open>findClassByCrn\<close> returns the first record, in the order of the collection, whose
  \<open>crn\<close> equals the argument whenever there is one, and returns the absent value, without
  failing, when no record matches.
\<close>

theorem findClassByCrn_first_match:
  "(\<forall>pre c post. classData st = pre @ c # post \<and> (\<forall>p\<in>set pre. get_crn p \<noteq> crn) \<and> get_crn c = crn
       \<longrightarrow> findClassByCrn st crn = Some c)
   \<and> ((\<exists>c\<in>set (classData st). get_crn c = crn)
       \<longrightarrow> (\<exists>pre c post. classData st = pre @ c # post \<and> (\<forall>p\<in>set pre. get_crn p \<noteq> crn)
              \<and> get_crn c = crn \<and> findClassByCrn st crn = Some c))
   \<and> ((\<forall>c\<in>set (classData st). get_crn c \<noteq> crn) \<longrightarrow> findClassByCrn st crn = None)"
proof (intro conjI allI impI)
  fix pre c post
  assume "classData st = pre @ c # post \<and> (\<forall>p\<in>set pre. get_crn p \<noteq> crn) \<and> get_crn c = crn"
  then show "findClassByCrn st crn = Some c"
    by (simp add: findClassByCrn_def findClassByCrn_loop_first)
next
  assume "\<exists>c\<in>set (classData st). get_crn c = crn"
  then obtain pre c post where split: "classData st = pre @ c # post" "get_crn c = crn"
      "\<forall>p\<in>set pre. get_crn p \<noteq> crn"
    using split_list_first_prop[of "classData st" "\<lambda>c. get_crn c = crn"] by blast
  then have "findClassByCrn st crn = Some c"
    by (simp add: findClassByCrn_def findClassByCrn_loop_first)
  with split show "\<exists>pre c post. classData st = pre @ c # post \<and> (\<forall>p\<in>set pre. get_crn p \<noteq> crn)
      \<and> get_crn c = crn \<and> findClassByCrn st crn = Some c"
    by blast
next
  assume "\<forall>c\<in>set (classData st). get_crn c \<noteq> crn"
  then show "findClassByCrn st crn = None"
    by (simp add: findClassByCrn_def findClassByCrn_loop_none)
qed

theorem findClassByCrn_first_match_witness:
  "findClassByCrn ((new_Scraper ''x@wm.edu'')\<lparr>classData := [closed_section\<lparr>crn' := Finite 101\<rparr>,
       open_section\<lparr>crn' := Finite 102\<rparr>, closed_section\<lparr>crn' := Finite 102\<rparr>]\<rparr>) ''102''
     = Some (open_section\<lparr>crn' := Finite 102\<rparr>)
   \<and> findClassByCrn ((new_Scraper ''x@wm.edu'')\<lparr>classData := [closed_section\<lparr>crn' := Finite 101\<rparr>,
       open_section\<lparr>crn' := Finite 102\<rparr>, closed_section\<lparr>crn' := Finite 102\<rparr>]\<rparr>) ''999''
     = None"
proof -
  let ?st = "(new_Scraper ''x@wm.edu'')\<lparr>classData := [closed_section\<lparr>crn' := Finite 101\<rparr>,
       open_section\<lparr>crn' := Finite 102\<rparr>, closed_section\<lparr>crn' := Finite 102\<rparr>]\<rparr>"
  have crns: "get_crn (closed_section\<lparr>crn' := Finite 101\<rparr>) = ''101''"
      "get_crn (open_section\<lparr>crn' := Finite 102\<rparr>) = ''102''"
      "get_crn (closed_section\<lparr>crn' := Finite 102\<rparr>) = ''102''"
    by (simp_all add: get_crn_def digit_char_def)
  have a: "findClassByCrn ?st ''102'' = Some (open_section\<lparr>crn' := Finite 102\<rparr>)"
    using findClassByCrn_first_match [of ?st "''102''", THEN conjunct1, rule_format,
        of "[closed_section\<lparr>crn' := Finite 101\<rparr>]" "open_section\<lparr>crn' := Finite 102\<rparr>"
           "[closed_section\<lparr>crn' := Finite 102\<rparr>]"] crns
    by simp
  have b: "findClassByCrn ?st ''999'' = None"
    using findClassByCrn_first_match [of ?st "''999''", THEN conjunct2, THEN conjunct2] crns by simp
  from a b show ?thesis by simp
qed

section \<open>Persistence\<close>

text \<open>
  C9. When the file cannot be read or its text cannot be parsed, \<open>loadFromJson\<close> throws
  before it clears anything: the state, and with it the record collection, is exactly what
  it was before the call.
\<close>

theorem loadFromJson_failure_keeps_records:
  assumes "files st filepath = None \<or> files st filepath = Some NotJson"
  shows "loadFromJson filepath st = (Throw ErrorLoadingJson, st)"
  using assms by (auto simp: loadFromJson_def)

theorem loadFromJson_failure_keeps_records_witness:
  "loadFromJson ''missing.json'' ((new_Scraper ''x@wm.edu'')\<lparr>classData := [closed_section]\<rparr>)
     = (Throw ErrorLoadingJson, (new_Scraper ''x@wm.edu'')\<lparr>classData := [closed_section]\<rparr>)
   \<and> classData (snd (loadFromJson ''broken.json''
        ((new_Scraper ''x@wm.edu'')\<lparr>classData := [closed_section], files := [''broken.json'' \<mapsto> NotJson]\<rparr>)))
     = [closed_section]"
  using loadFromJson_failure_keeps_records [of "(new_Scraper ''x@wm.edu'')\<lparr>classData := [closed_section]\<rparr>"
      "''missing.json''"]
    loadFromJson_failure_keeps_records [of
      "(new_Scraper ''x@wm.edu'')\<lparr>classData := [closed_section], files := [''broken.json'' \<mapsto> NotJson]\<rparr>"
      "''broken.json''"]
  by (simp add: new_Scraper_def)

text \<open>
  C1, at a failing input. A collection holding one valid \<open>CLOSED\<close> record is saved and
  loaded back: the file carries the status as the string \<open>"CLOSED"\<close>, which is truthy, and
  the loaded record is \<open>OPEN\<close>. Every other field comes back as it was.
\<close>

theorem roundtrip_closed_comes_back_open:
  "loadFromJson ''courses.json''
      (saveToJson ''courses'' ((new_Scraper ''x@wm.edu'')\<lparr>classData := [closed_section]\<rparr>))
     = (Normal, (saveToJson ''courses'' ((new_Scraper ''x@wm.edu'')\<lparr>classData := [closed_section]\<rparr>))
          \<lparr>classData := [closed_section\<lparr>status' := ''OPEN''\<rparr>]\<rparr>)
   \<and> status' closed_section = ''CLOSED''"
  by (simp add: saveToJson_def endsWith_def new_Scraper_def loadFromJson_def stringify_def
      closed_section_def new_Class_def andThen_def blank_def set_crn_def set_courseID_def
      set_attributes_def set_title_def set_instructor_def set_credits_def set_times_def
      set_projectedEnrollment_def set_currentEnrollment_def set_seatsAvailable_def
      clean_or_empty_def to_int_def strip_newlines_def trim_def is_space_def CR_def LF_def
      parseInt_def read_sign_def read_radix_def is_digit_def digit_val_def digit_char_def Let_def)

section \<open>Rate limiting and discovery\<close>

lemma rate_limit_ignores_last_request:
  "logAndExecuteRateLimit (st\<lparr>rateLimit_lastRequest := x\<rparr>) = logAndExecuteRateLimit st"
  by (simp add: logAndExecuteRateLimit_def rateLimit_def Let_def)

lemma rate_limit_no_wait:
  "2 * rateLimit st \<le> clock st \<Longrightarrow> clock (logAndExecuteRateLimit st) = clock st"
  by (simp add: logAndExecuteRateLimit_def Let_def)

text \<open>
  C2, at a failing input. With the default interval of 500 ms, two rate-limited calls one
  millisecond apart are both let through without any wait: the recorded timestamps are one
  millisecond apart. The step subtracts the interval, not the last-request timestamp, from
  the current time.
\<close>

theorem rate_limit_lets_close_calls_through:
  "rateLimit ((new_Scraper ''x@wm.edu'')\<lparr>clock := 1700000000000\<rparr>) = 500
   \<and> rateLimit_lastRequest (logAndExecuteRateLimit ((new_Scraper ''x@wm.edu'')\<lparr>clock := 1700000000000\<rparr>))
       = 1700000000000
   \<and> rateLimit_lastRequest (logAndExecuteRateLimit (elapse 1
         (logAndExecuteRateLimit ((new_Scraper ''x@wm.edu'')\<lparr>clock := 1700000000000\<rparr>))))
       = 1700000000001"
  by (simp add: logAndExecuteRateLimit_def rateLimit_def new_Scraper_def elapse_def Let_def)

text \<open>
  C5. When the listing page is fetched and its term dropdown has at least two options,
  discovery sets the latest term to the value of the second-to-last term option and, the
  subject dropdown being there, returns with the subject list set to the values of the
  subject options without the first one, in the order of the page.
\<close>

theorem discovery_extraction:
  assumes "listing net = Inr pg" "term_code pg = Some termOptions" "2 \<le> length termOptions"
  shows "terms_latest (snd (getTermsAndSubjects net st)) = Str (rev termOptions ! 1)
     \<and> (\<forall>subjectOptions. term_subj pg = Some subjectOptions \<longrightarrow>
          fst (getTermsAndSubjects net st) = Normal
          \<and> subjects (snd (getTermsAndSubjects net st)) = Some (tl subjectOptions))"
proof -
  have nth: "rev termOptions ! 1 = termOptions ! (length termOptions - 2)"
    using assms(3) by (simp add: rev_nth numeral_2_eq_2)
  have tl: "drop 1 xs = tl xs" for xs :: "string list"
    by (simp add: drop_Suc)
  show ?thesis
  proof (cases "term_subj pg")
    case None
    with assms nth show ?thesis by (simp add: getTermsAndSubjects_def Let_def)
  next
    case (Some subjectOptions)
    with assms nth tl show ?thesis by (simp add: getTermsAndSubjects_def Let_def)
  qed
qed

theorem discovery_extraction_witness:
  "terms_latest (snd (getTermsAndSubjects site (new_Scraper ''x@wm.edu''))) = Str ''202320''
   \<and> fst (getTermsAndSubjects site (new_Scraper ''x@wm.edu'')) = Normal
   \<and> subjects (snd (getTermsAndSubjects site (new_Scraper ''x@wm.edu''))) = Some [''BIOL'', ''CHEM'']"
  using discovery_extraction [of site "\<lparr>term_code = Some [''202310'', ''202320'', ''0''],
      term_subj = Some [''0'', ''BIOL'', ''CHEM'']\<rparr>" "[''202310'', ''202320'', ''0'']"
      "new_Scraper ''x@wm.edu''"]
  by (simp add: site_def)

section \<open>The status invariant\<close>

lemma andThen_Inr: "andThen r f = Inr y \<Longrightarrow> \<exists>x. r = Inr x \<and> f x = Inr y"
  by (cases r) (simp_all add: andThen_def)

lemma set_status_ok: "set_status v c = Inr c' \<Longrightarrow> status_ok c'"
  by (cases v) (auto simp: status_ok_def get_status_def split: if_splits)

lemma new_Class_status_ok:
  assumes "new_Class a1 a2 a3 a4 a5 a6 a7 a8 a9 a10 a11 = Inr c"
  shows "status_ok c"
proof -
  from andThen_Inr[OF assms[unfolded new_Class_def]]
  obtain x where "set_status a11 x = Inr c" by blast
  then show ?thesis by (rule set_status_ok)
qed

lemma other_setters_keep_status:
  "set_crn v c = Inr c' \<Longrightarrow> status' c' = status' c"
  "set_courseID v c = Inr c' \<Longrightarrow> status' c' = status' c"
  "set_attributes as c = Inr c' \<Longrightarrow> status' c' = status' c"
  "set_title v c = Inr c' \<Longrightarrow> status' c' = status' c"
  "set_instructor v c = Inr c' \<Longrightarrow> status' c' = status' c"
  "set_credits v c = Inr c' \<Longrightarrow> status' c' = status' c"
  "set_times v c = Inr c' \<Longrightarrow> status' c' = status' c"
  "set_projectedEnrollment v c = Inr c' \<Longrightarrow> status' c' = status' c"
  "set_currentEnrollment v c = Inr c' \<Longrightarrow> status' c' = status' c"
  "set_seatsAvailable v c = Inr c' \<Longrightarrow> status' c' = status' c"
proof -
  show "set_crn v c = Inr c' \<Longrightarrow> status' c' = status' c"
    by (cases "clean v") (auto simp: set_crn_def)
  show "set_courseID v c = Inr c' \<Longrightarrow> status' c' = status' c"
    by (cases "clean_or_empty v") (auto simp: set_courseID_def)
  show "set_attributes as c = Inr c' \<Longrightarrow> status' c' = status' c"
    by (cases as) (auto simp: set_attributes_def)
  show "set_title v c = Inr c' \<Longrightarrow> status' c' = status' c"
    by (cases "clean_or_empty v") (auto simp: set_title_def)
  show "set_instructor v c = Inr c' \<Longrightarrow> status' c' = status' c"
    by (cases "clean_or_empty v") (auto simp: set_instructor_def)
  show "set_credits v c = Inr c' \<Longrightarrow> status' c' = status' c"
    by (cases "to_int v") (auto simp: set_credits_def split: if_splits)
  show "set_times v c = Inr c' \<Longrightarrow> status' c' = status' c"
    by (cases "clean_or_empty v") (auto simp: set_times_def)
  show "set_projectedEnrollment v c = Inr c' \<Longrightarrow> status' c' = status' c"
    by (cases "to_int v") (auto simp: set_projectedEnrollment_def)
  show "set_currentEnrollment v c = Inr c' \<Longrightarrow> status' c' = status' c"
    by (cases "to_int v") (auto simp: set_currentEnrollment_def)
  show "set_seatsAvailable v c = Inr c' \<Longrightarrow> status' c' = status' c"
    by (cases "js_toString v") (auto simp: set_seatsAvailable_def)
qed

lemma rate_limit_keeps [simp]:
  "classData (logAndExecuteRateLimit st) = classData st"
  "sent (logAndExecuteRateLimit st) = sent st"
  "subjects (logAndExecuteRateLimit st) = subjects st"
  "terms_latest (logAndExecuteRateLimit st) = terms_latest st"
  "files (logAndExecuteRateLimit st) = files st"
  by (simp_all add: logAndExecuteRateLimit_def Let_def)

lemma getTermsAndSubjects_effect:
  assumes "getTermsAndSubjects net st = (r, st')"
  shows "classData st' = classData st" "sent st' = sent st @ [GetListing]"
    "r = Normal \<Longrightarrow> subjects st' \<noteq> None"
  using assms
  by (auto simp: getTermsAndSubjects_def Let_def split: sum.splits option.splits if_splits)

lemma discoverIfNeeded_classData:
  "discoverIfNeeded net st = (r, st') \<Longrightarrow> classData st' = classData st"
  by (auto simp: discoverIfNeeded_def getTermsAndSubjects_effect(1)
      split: if_splits prod.splits completion.splits)

lemma createAndSaveClass_effect:
  assumes "createAndSaveClass row st = (r, st')"
  shows "sent st' = sent st" "subjects st' = subjects st" "terms_latest st' = terms_latest st"
    "\<exists>new. classData st' = classData st @ new" "records_ok st \<Longrightarrow> records_ok st'"
  using assms new_Class_status_ok
  by (auto simp: createAndSaveClass_def records_ok_def split: if_splits sum.splits)

lemma saveRows_effect:
  "saveRows rows st = (r, st') \<Longrightarrow>
     sent st' = sent st \<and> subjects st' = subjects st \<and> terms_latest st' = terms_latest st
     \<and> (\<exists>new. classData st' = classData st @ new) \<and> (records_ok st \<longrightarrow> records_ok st')"
proof (induction rows arbitrary: st)
  case Nil
  then show ?case by simp
next
  case (Cons row rows)
  obtain r1 st1 where step: "createAndSaveClass row st = (r1, st1)"
    by (cases "createAndSaveClass row st")
  note eff = createAndSaveClass_effect[OF step]
  show ?case
  proof (cases r1)
    case Normal
    with Cons.prems step have "saveRows rows st1 = (r, st')" by simp
    from Cons.IH[OF this] eff show ?thesis by auto
  next
    case (Throw e)
    with Cons.prems step have "st' = st1" by simp
    with eff show ?thesis by auto
  qed
qed

lemma fetchSubject_keeps:
  assumes "fetchSubject net sc t st = (r, st')"
  shows "subjects st' = subjects st" "terms_latest st' = terms_latest st"
    "\<exists>new. classData st' = classData st @ new" "records_ok st \<Longrightarrow> records_ok st'"
proof -
  have "subjects st' = subjects st \<and> terms_latest st' = terms_latest st
      \<and> (\<exists>new. classData st' = classData st @ new) \<and> (records_ok st \<longrightarrow> records_ok st')"
  proof (cases "subjects st")
    case None
    with assms show ?thesis by (simp add: fetchSubject_def)
  next
    case (Some subs)
    show ?thesis
    proof (cases "includes_js subs sc")
      case False
      with Some assms show ?thesis by (simp add: fetchSubject_def)
    next
      case True
      let ?st1 = "logAndExecuteRateLimit st"
      let ?t = "if truthy t then t else terms_latest ?st1"
      let ?st2 = "?st1\<lparr>sent := sent ?st1 @ [GetResults (template ?t) (template sc)]\<rparr>"
      have base: "subjects ?st2 = subjects st" "terms_latest ?st2 = terms_latest st"
        "classData ?st2 = classData st" "records_ok ?st2 = records_ok st"
        by (simp_all add: records_ok_def)
      show ?thesis
      proof (cases "results net (template ?t) (template sc)")
        case (Inl e)
        with Some True assms have "st' = ?st2" by (simp add: fetchSubject_def Let_def)
        with base show ?thesis by simp
      next
        case (Inr tb)
        show ?thesis
        proof (cases tb)
          case None
          with Inr Some True assms have "st' = ?st2" by (simp add: fetchSubject_def Let_def)
          with base show ?thesis by simp
        next
          case (Some table)
          with Inr \<open>subjects st = Some subs\<close> True assms have "saveRows table ?st2 = (r, st')"
            by (simp add: fetchSubject_def Let_def)
          from saveRows_effect[OF this] base show ?thesis by simp
        qed
      qed
    qed
  qed
  then show "subjects st' = subjects st" "terms_latest st' = terms_latest st"
    "\<exists>new. classData st' = classData st @ new" "records_ok st \<Longrightarrow> records_ok st'"
    by blast+
qed

lemma getCourseData_records_ok:
  "records_ok st \<Longrightarrow> getCourseData n net sc t st = Some (r, st') \<Longrightarrow> records_ok st'"
  "records_ok st \<Longrightarrow> forSubjects n net t subs st = Some (r, st') \<Longrightarrow> records_ok st'"
proof (induction n net sc t st and n net t subs st arbitrary: r st' and r st'
    rule: getCourseData_forSubjects.induct)
  case (1 net subjectCode trm st)
  then show ?case by simp
next
  case (2 n net subjectCode trm st)
  obtain r1 st1 where d: "discoverIfNeeded net st = (r1, st1)"
    by (cases "discoverIfNeeded net st")
  have ok1: "records_ok st1"
    using discoverIfNeeded_classData[OF d] "2.prems"(1) by (simp add: records_ok_def)
  show ?case
  proof (cases r1)
    case (Throw e)
    with "2.prems"(2) d ok1 show ?thesis by simp
  next
    case Normal
    show ?thesis
    proof (cases "truthy subjectCode")
      case True
      with Normal d "2.prems"(2) have "fetchSubject net subjectCode trm st1 = (r, st')" by simp
      from fetchSubject_keeps(4)[OF this ok1] show ?thesis .
    next
      case False
      show ?thesis
      proof (cases "subjects st1")
        case None
        with False Normal d "2.prems"(2) ok1 show ?thesis by simp
      next
        case (Some subs)
        show ?thesis
        proof (cases "subs \<noteq> [] \<and> hd subs = []")
          case True
          with Some False Normal d "2.prems"(2) ok1 show ?thesis by simp
        next
          case nested: False
          with Some False Normal d "2.prems"(2) have "forSubjects n net trm subs st1 = Some (r, st')"
            by simp
          from "2.IH"[OF d[symmetric] Normal False Some nested ok1 this] show ?thesis .
        qed
      qed
    qed
  qed
next
  case (3 n net trm st)
  then show ?case by simp
next
  case (4 n net trm subject rest st)
  let ?t = "if truthy trm then trm else terms_latest st"
  show ?case
  proof (cases "getCourseData n net (Str subject) ?t st")
    case None
    with "4.prems"(2) show ?thesis by simp
  next
    case (Some res)
    obtain r1 st1 where res: "res = (r1, st1)" by (cases res)
    have ok1: "records_ok st1"
      using "4.IH"(1)[OF "4.prems"(1)] Some res by simp
    show ?thesis
    proof (cases r1)
      case (Throw e)
      with Some res "4.prems"(2) ok1 show ?thesis by simp
    next
      case Normal
      with Some res "4.prems"(2) have "forSubjects n net trm rest st1 = Some (r, st')" by simp
      from "4.IH"(2)[OF Some res[symmetric] Normal ok1 this] show ?thesis .
    qed
  qed
qed

lemma loadEntries_records_ok:
  "records_ok st \<Longrightarrow> loadEntries entries st = (r, st') \<Longrightarrow> records_ok st'"
proof (induction entries arbitrary: st)
  case Nil
  then show ?case by simp
next
  case (Cons entry others)
  show ?case
  proof (cases "js_toString (j_crn entry)")
    case (Inl e)
    with Cons.prems show ?thesis by simp
  next
    case (Inr crn)
    let ?new = "new_Class (Str crn) (j_courseID entry) (j_attributes entry) (j_title entry)
        (j_instructor entry) (j_credits entry) (j_times entry) (j_projectedEnrollment entry)
        (j_currentEnrollment entry) (j_seatsAvailable entry)
        (Str (if truthy (j_status entry) then ''OPEN'' else ''CLOSED''))"
    show ?thesis
    proof (cases ?new)
      case (Inl e)
      with Inr Cons.prems show ?thesis by simp
    next
      case new: (Inr c)
      have "status_ok c" using new by (rule new_Class_status_ok)
      with Cons.prems(1) have ok: "records_ok (st\<lparr>classData := classData st @ [c]\<rparr>)"
        by (simp add: records_ok_def)
      from new Inr Cons.prems(2)
      have "loadEntries others (st\<lparr>classData := classData st @ [c]\<rparr>) = (r, st')" by simp
      from Cons.IH[OF ok this] show ?thesis .
    qed
  qed
qed

lemma loadFromJson_records_ok:
  assumes "records_ok st" "loadFromJson filepath st = (r, st')"
  shows "records_ok st'"
proof (cases "files st filepath")
  case None
  with assms show ?thesis by (simp add: loadFromJson_def)
next
  case (Some f)
  have empty: "records_ok (st\<lparr>classData := []\<rparr>)" by (simp add: records_ok_def)
  show ?thesis
  proof (cases f)
    case NotJson
    with Some assms show ?thesis by (simp add: loadFromJson_def)
  next
    case JsonOther
    with Some assms empty show ?thesis by (auto simp: loadFromJson_def)
  next
    case (JsonArray data)
    with Some assms have "loadEntries data (st\<lparr>classData := []\<rparr>) = (r, st')"
      by (simp add: loadFromJson_def)
    from loadEntries_records_ok[OF empty this] show ?thesis .
  qed
qed

lemma construct_closed_section:
  "new_Class (Str ''10001'') (Str ''BIOL 100'') (Some [''C100'', ''NQR'']) (Str ''Intro Biology'')
     (Str ''Smith'') (Str ''3'') (Str ''MWF 9:00'') (Str ''30'') (Str ''25'') (Str ''5*'') (Str ''CLOSED'')
   = Inr closed_section"
  by (simp add: new_Class_def andThen_def blank_def closed_section_def set_crn_def set_courseID_def
      set_attributes_def set_title_def set_instructor_def set_credits_def set_times_def
      set_projectedEnrollment_def set_currentEnrollment_def set_seatsAvailable_def
      clean_or_empty_def to_int_def strip_newlines_def trim_def is_space_def CR_def LF_def
      parseInt_def read_sign_def read_radix_def is_digit_def digit_val_def Let_def)

text \<open>
  C10. Every record that the constructor returns has the status \<open>OPEN\<close> or \<open>CLOSED\<close>,
  and \<open>statusAsBool\<close> is true exactly for \<open>OPEN\<close> (false exactly for \<open>CLOSED\<close>). Every
  setter keeps a record inside the domain, and every operation of the scraper that adds
  to or replaces the collection leaves only such records in it.
\<close>

theorem status_invariant:
  "(new_Class a1 a2 a3 a4 a5 a6 a7 a8 a9 a10 a11 = Inr k \<longrightarrow>
      status_ok k \<and> (statusAsBool k \<longleftrightarrow> get_status k = ''OPEN'')
      \<and> (\<not> statusAsBool k \<longleftrightarrow> get_status k = ''CLOSED''))
   \<and> (status_ok c \<and> (set_crn v c = Inr c' \<or> set_courseID v c = Inr c' \<or> set_attributes as c = Inr c'
        \<or> set_title v c = Inr c' \<or> set_instructor v c = Inr c' \<or> set_credits v c = Inr c'
        \<or> set_times v c = Inr c' \<or> set_projectedEnrollment v c = Inr c'
        \<or> set_currentEnrollment v c = Inr c' \<or> set_seatsAvailable v c = Inr c'
        \<or> set_status v c = Inr c') \<longrightarrow> status_ok c')
   \<and> (records_ok st \<and> (createAndSaveClass row st = (r, st') \<or> loadFromJson filepath st = (r, st')
        \<or> getTermsAndSubjects net st = (r, st') \<or> getCourseData n net sc t st = Some (r, st')
        \<or> st' = saveToJson filepath st) \<longrightarrow> records_ok st')"
proof -
  have constructed: "new_Class a1 a2 a3 a4 a5 a6 a7 a8 a9 a10 a11 = Inr k \<longrightarrow>
      status_ok k \<and> (statusAsBool k \<longleftrightarrow> get_status k = ''OPEN'')
      \<and> (\<not> statusAsBool k \<longleftrightarrow> get_status k = ''CLOSED'')"
  proof
    assume "new_Class a1 a2 a3 a4 a5 a6 a7 a8 a9 a10 a11 = Inr k"
    then have "status_ok k" by (rule new_Class_status_ok)
    then show "status_ok k \<and> (statusAsBool k \<longleftrightarrow> get_status k = ''OPEN'')
        \<and> (\<not> statusAsBool k \<longleftrightarrow> get_status k = ''CLOSED'')"
      by (auto simp: status_ok_def statusAsBool_def get_status_def)
  qed
  have setters: "status_ok c \<and> (set_crn v c = Inr c' \<or> set_courseID v c = Inr c' \<or> set_attributes as c = Inr c'
        \<or> set_title v c = Inr c' \<or> set_instructor v c = Inr c' \<or> set_credits v c = Inr c'
        \<or> set_times v c = Inr c' \<or> set_projectedEnrollment v c = Inr c'
        \<or> set_currentEnrollment v c = Inr c' \<or> set_seatsAvailable v c = Inr c'
        \<or> set_status v c = Inr c') \<longrightarrow> status_ok c'"
  proof
    assume a: "status_ok c \<and> (set_crn v c = Inr c' \<or> set_courseID v c = Inr c' \<or> set_attributes as c = Inr c'
        \<or> set_title v c = Inr c' \<or> set_instructor v c = Inr c' \<or> set_credits v c = Inr c'
        \<or> set_times v c = Inr c' \<or> set_projectedEnrollment v c = Inr c'
        \<or> set_currentEnrollment v c = Inr c' \<or> set_seatsAvailable v c = Inr c'
        \<or> set_status v c = Inr c')"
    then have "status' c' = status' c \<or> set_status v c = Inr c'"
      by (auto dest: other_setters_keep_status)
    then show "status_ok c'"
    proof
      assume "status' c' = status' c"
      with a show ?thesis by (simp add: status_ok_def get_status_def)
    next
      assume "set_status v c = Inr c'"
      then show ?thesis by (rule set_status_ok)
    qed
  qed
  have operations: "records_ok st \<and> (createAndSaveClass row st = (r, st') \<or> loadFromJson filepath st = (r, st')
        \<or> getTermsAndSubjects net st = (r, st') \<or> getCourseData n net sc t st = Some (r, st')
        \<or> st' = saveToJson filepath st) \<longrightarrow> records_ok st'"
  proof
    assume a: "records_ok st \<and> (createAndSaveClass row st = (r, st') \<or> loadFromJson filepath st = (r, st')
        \<or> getTermsAndSubjects net st = (r, st') \<or> getCourseData n net sc t st = Some (r, st')
        \<or> st' = saveToJson filepath st)"
    then have ok: "records_ok st" by simp
    from a consider "createAndSaveClass row st = (r, st')" | "loadFromJson filepath st = (r, st')"
      | "getTermsAndSubjects net st = (r, st')" | "getCourseData n net sc t st = Some (r, st')"
      | "st' = saveToJson filepath st" by blast
    then show "records_ok st'"
    proof cases
      case 1
      from createAndSaveClass_effect(5)[OF this ok] show ?thesis .
    next
      case 2
      from loadFromJson_records_ok[OF ok this] show ?thesis .
    next
      case 3
      from getTermsAndSubjects_effect(1)[OF this] ok show ?thesis by (simp add: records_ok_def)
    next
      case 4
      from getCourseData_records_ok(1)[OF ok this] show ?thesis .
    next
      case 5
      with ok show ?thesis by (simp add: records_ok_def saveToJson_def Let_def)
    qed
  qed
  from constructed setters operations show ?thesis by (intro conjI)
qed

theorem status_invariant_witness:
  "status_ok closed_section \<and> \<not> statusAsBool closed_section \<and> get_status closed_section = ''CLOSED''"
  using status_invariant [of "Str ''10001''" "Str ''BIOL 100''" "Some [''C100'', ''NQR'']"
      "Str ''Intro Biology''" "Str ''Smith''" "Str ''3''" "Str ''MWF 9:00''" "Str ''30''" "Str ''25''"
      "Str ''5*''" "Str ''CLOSED''" closed_section]
    construct_closed_section
  by (simp add: closed_section_def get_status_def)

section \<open>The course-fetch operation\<close>

lemma discoverIfNeeded_known:
  "subjects st \<noteq> None \<Longrightarrow> discoverIfNeeded net st = (Normal, st)"
  by (auto simp: discoverIfNeeded_def)

lemma biol_row_saved:
  "createAndSaveClass biol_row st = (Normal, st\<lparr>classData := classData st @ [closed_section]\<rparr>)"
  by (simp add: createAndSaveClass_def biol_row_def
      new_Class_def andThen_def blank_def closed_section_def set_crn_def set_courseID_def
      set_attributes_def set_title_def set_instructor_def set_credits_def set_times_def
      set_projectedEnrollment_def set_currentEnrollment_def set_seatsAvailable_def
      clean_or_empty_def to_int_def strip_newlines_def trim_def is_space_def CR_def LF_def
      parseInt_def read_sign_def read_radix_def is_digit_def digit_val_def Let_def)

lemma chem_row_rejected:
  "createAndSaveClass chem_row st = (Throw IncorrectStatus, st)"
  by (simp add: createAndSaveClass_def chem_row_def
      new_Class_def andThen_def blank_def set_crn_def set_courseID_def
      set_attributes_def set_title_def set_instructor_def set_credits_def set_times_def
      set_projectedEnrollment_def set_currentEnrollment_def set_seatsAvailable_def
      clean_or_empty_def to_int_def strip_newlines_def trim_def is_space_def CR_def LF_def
      parseInt_def read_sign_def read_radix_def is_digit_def digit_val_def Let_def)

lemma no_discovery_when_subjects_known:
  assumes "subjects st \<noteq> None" "truthy sc"
  shows "getCourseData (Suc n) net sc t st = Some (fetchSubject net sc t st)"
  using assms by (simp add: discoverIfNeeded_known)

lemma discovery_when_nothing_known:
  assumes "\<not> truthy (terms_latest st)" and "subjects st = None"
    and "getTermsAndSubjects net st = (r, st1)"
  shows "sent st1 = sent st @ [GetListing]
     \<and> (\<forall>e. r = Throw e \<longrightarrow> getCourseData (Suc n) net sc t st = Some (Throw e, st1))
     \<and> (r = Normal \<and> \<not> truthy (terms_latest st1)
          \<longrightarrow> getCourseData (Suc n) net sc t st = Some (Throw UnableToGetTerm, st1))
     \<and> (r = Normal \<and> truthy (terms_latest st1)
          \<longrightarrow> getCourseData (Suc n) net sc t st = getCourseData (Suc n) net sc t st1)"
proof -
  have s: "sent st1 = sent st @ [GetListing]"
    using getTermsAndSubjects_effect(2)[OF assms(3)] .
  have thrown: "getCourseData (Suc n) net sc t st = Some (Throw e, st1)" if "r = Throw e" for e
    using that assms by (simp add: discoverIfNeeded_def)
  have noterm: "getCourseData (Suc n) net sc t st = Some (Throw UnableToGetTerm, st1)"
    if "r = Normal \<and> \<not> truthy (terms_latest st1)"
    using that assms by (simp add: discoverIfNeeded_def)
  have goes_on: "getCourseData (Suc n) net sc t st = getCourseData (Suc n) net sc t st1"
    if "r = Normal \<and> truthy (terms_latest st1)"
  proof -
    have known: "subjects st1 \<noteq> None"
      using getTermsAndSubjects_effect(3)[OF assms(3)] that by simp
    then have "discoverIfNeeded net st = (Normal, st1)"
      using that assms by (simp add: discoverIfNeeded_def)
    moreover have "discoverIfNeeded net st1 = (Normal, st1)"
      using known by (rule discoverIfNeeded_known)
    ultimately show ?thesis by simp
  qed
  from s thrown noterm goes_on show ?thesis by blast
qed

text \<open>
  C6, at a failing input. No term has been set, but a subject list is present. The
  course-fetch operation makes no discovery call: the only request it sends is the one
  for the results, with \<open>null\<close> written as the term code, and it stores what comes back
  and returns normally.
\<close>

theorem missing_term_requests_null:
  "\<not> truthy (terms_latest ((new_Scraper ''x@wm.edu'')\<lparr>subjects := Some [''BIOL'']\<rparr>))
   \<and> getCourseData 1 site (Str ''BIOL'') Undefined ((new_Scraper ''x@wm.edu'')\<lparr>subjects := Some [''BIOL'']\<rparr>)
     = Some (Normal, (new_Scraper ''x@wm.edu'')\<lparr>subjects := Some [''BIOL''],
         rateLimit_lastRequest := 1000, clock := 1000, classData := [closed_section],
         sent := [GetResults ''null'' ''BIOL'']\<rparr>)"
proof -
  let ?st = "(new_Scraper ''x@wm.edu'')\<lparr>subjects := Some [''BIOL'']\<rparr>"
  have d: "discoverIfNeeded site ?st = (Normal, ?st)"
    by (rule discoverIfNeeded_known) simp
  have "fetchSubject site (Str ''BIOL'') Undefined ?st
      = (Normal, (new_Scraper ''x@wm.edu'')\<lparr>subjects := Some [''BIOL''],
         rateLimit_lastRequest := 1000, clock := 1000, classData := [closed_section],
         sent := [GetResults ''null'' ''BIOL'']\<rparr>)"
    by (simp add: fetchSubject_def Let_def site_def biol_row_saved new_Scraper_def
        logAndExecuteRateLimit_def rateLimit_def)
  then show ?thesis
    using d by (simp add: new_Scraper_def)
qed

text \<open>
  The same through the methods alone: an explicit discovery on a page whose latest term
  option has an empty value leaves no usable term, and the course-fetch operation that
  follows neither discovers again nor fails; it requests the results with an empty term
  code.
\<close>

lemma empty_term_after_discovery:
  "getTermsAndSubjects blank_term_site (new_Scraper ''x@wm.edu'')
     = (Normal, (new_Scraper ''x@wm.edu'')\<lparr>rateLimit_lastRequest := 1000, clock := 1000,
          sent := [GetListing], terms_all := Some [[], ''0''], terms_latest := Str [],
          subjects := Some [''BIOL'']\<rparr>)
   \<and> getCourseData 1 blank_term_site (Str ''BIOL'') Undefined
        ((new_Scraper ''x@wm.edu'')\<lparr>rateLimit_lastRequest := 1000, clock := 1000,
          sent := [GetListing], terms_all := Some [[], ''0''], terms_latest := Str [],
          subjects := Some [''BIOL'']\<rparr>)
     = Some (Normal, (new_Scraper ''x@wm.edu'')\<lparr>rateLimit_lastRequest := 1000, clock := 1000,
          sent := [GetListing, GetResults [] ''BIOL''], terms_all := Some [[], ''0''],
          terms_latest := Str [], subjects := Some [''BIOL''], classData := [closed_section]\<rparr>)"
proof -
  let ?st = "(new_Scraper ''x@wm.edu'')\<lparr>rateLimit_lastRequest := 1000, clock := 1000,
          sent := [GetListing], terms_all := Some [[], ''0''], terms_latest := Str [],
          subjects := Some [''BIOL'']\<rparr>"
  have a: "getTermsAndSubjects blank_term_site (new_Scraper ''x@wm.edu'') = (Normal, ?st)"
    by (simp add: getTermsAndSubjects_def blank_term_site_def Let_def new_Scraper_def
        logAndExecuteRateLimit_def rateLimit_def)
  have d: "discoverIfNeeded blank_term_site ?st = (Normal, ?st)"
    by (rule discoverIfNeeded_known) simp
  have "fetchSubject blank_term_site (Str ''BIOL'') Undefined ?st
      = (Normal, (new_Scraper ''x@wm.edu'')\<lparr>rateLimit_lastRequest := 1000, clock := 1000,
          sent := [GetListing, GetResults [] ''BIOL''], terms_all := Some [[], ''0''],
          terms_latest := Str [], subjects := Some [''BIOL''], classData := [closed_section]\<rparr>)"
    by (simp add: fetchSubject_def Let_def blank_term_site_def biol_row_saved new_Scraper_def
        logAndExecuteRateLimit_def rateLimit_def)
  then have b: "getCourseData 1 blank_term_site (Str ''BIOL'') Undefined ?st
      = Some (Normal, (new_Scraper ''x@wm.edu'')\<lparr>rateLimit_lastRequest := 1000, clock := 1000,
          sent := [GetListing, GetResults [] ''BIOL''], terms_all := Some [[], ''0''],
          terms_latest := Str [], subjects := Some [''BIOL''], classData := [closed_section]\<rparr>)"
    using d by (simp add: new_Scraper_def)
  from a b show ?thesis by (rule conjI)
qed

lemma fetchSubject_sent:
  assumes "subjects st = Some subs" "s \<in> set subs" "fetchSubject net (Str s) t st = (r, st')"
  shows "sent st' = sent st @ [GetResults (template (if truthy t then t else terms_latest st)) s]"
  using assms
  by (auto simp: fetchSubject_def Let_def split: sum.splits option.splits if_splits
      dest!: saveRows_effect)

lemma getCourseData_single:
  assumes "subjects st \<noteq> None" "s \<noteq> []"
  shows "getCourseData (Suc n) net (Str s) t st = Some (fetchSubject net (Str s) t st)"
  using assms by (simp add: discoverIfNeeded_known)

lemma forSubjects_refines:
  assumes "subjects st \<noteq> None" "\<forall>s\<in>set ss. s \<noteq> []"
  shows "forSubjects (Suc n) net trm ss st
     = Some (allSubjects_spec net (if truthy trm then trm else terms_latest st) ss st)"
  using assms
proof (induction ss arbitrary: st)
  case Nil
  then show ?case by simp
next
  case (Cons s rest)
  let ?t = "if truthy trm then trm else terms_latest st"
  obtain r1 st1 where f: "fetchSubject net (Str s) ?t st = (r1, st1)"
    by (cases "fetchSubject net (Str s) ?t st")
  have call: "getCourseData (Suc n) net (Str s) ?t st = Some (r1, st1)"
    using getCourseData_single[of st s n net ?t] Cons.prems f by simp
  show ?case
  proof (cases r1)
    case (Throw e)
    with call f show ?thesis by simp
  next
    case Normal
    have keep: "subjects st1 \<noteq> None" "terms_latest st1 = terms_latest st"
      using fetchSubject_keeps(1,2)[OF f] Cons.prems(1) by simp_all
    have "forSubjects (Suc n) net trm rest st1
        = Some (allSubjects_spec net (if truthy trm then trm else terms_latest st1) rest st1)"
      using Cons.IH[OF keep(1)] Cons.prems(2) by simp
    with Normal call f keep(2) show ?thesis by simp
  qed
qed

lemma allSubjects_spec_normal:
  assumes "subjects st = Some subs" "set ss \<subseteq> set subs"
    and "allSubjects_spec net t ss st = (Normal, st')"
  shows "sent st' = sent st @ map (GetResults (template (if truthy t then t else terms_latest st))) ss
     \<and> subjects st' = subjects st \<and> terms_latest st' = terms_latest st
     \<and> (\<exists>new. classData st' = classData st @ new)"
  using assms
proof (induction ss arbitrary: st)
  case Nil
  then show ?case by simp
next
  case (Cons s rest)
  obtain r1 st1 where f: "fetchSubject net (Str s) t st = (r1, st1)"
    by (cases "fetchSubject net (Str s) t st")
  with Cons.prems(3) have r1: "r1 = Normal" and rest: "allSubjects_spec net t rest st1 = (Normal, st')"
    by (cases r1; simp)+
  have s_in: "s \<in> set subs" using Cons.prems(2) by simp
  note keep = fetchSubject_keeps(1,2,3)[OF f]
  have sent1: "sent st1 = sent st @ [GetResults (template (if truthy t then t else terms_latest st)) s]"
    using fetchSubject_sent[OF Cons.prems(1) s_in f] .
  have "subjects st1 = Some subs" using keep(1) Cons.prems(1) by simp
  moreover have "set rest \<subseteq> set subs" using Cons.prems(2) by simp
  ultimately have ih: "sent st' = sent st1 @ map (GetResults (template (if truthy t then t else terms_latest st1))) rest
     \<and> subjects st' = subjects st1 \<and> terms_latest st' = terms_latest st1
     \<and> (\<exists>new. classData st' = classData st1 @ new)"
    using Cons.IH rest by blast
  from keep(3) obtain new1 where n1: "classData st1 = classData st @ new1" by blast
  from ih obtain new2 where n2: "classData st' = classData st1 @ new2" by blast
  have "classData st' = classData st @ (new1 @ new2)" using n1 n2 by simp
  then have grow: "\<exists>new. classData st' = classData st @ new" by (rule exI)
  from ih sent1 keep(1,2) grow show ?case by simp
qed

lemma allSubjects_spec_throw:
  assumes "allSubjects_spec net t ss st = (Throw e, st')"
  shows "\<exists>before failed later st1. ss = before @ failed # later
     \<and> allSubjects_spec net t before st = (Normal, st1)
     \<and> fetchSubject net (Str failed) t st1 = (Throw e, st')"
  using assms
proof (induction ss arbitrary: st)
  case Nil
  then show ?case by simp
next
  case (Cons s rest)
  obtain r1 st1 where f: "fetchSubject net (Str s) t st = (r1, st1)"
    by (cases "fetchSubject net (Str s) t st")
  show ?case
  proof (cases r1)
    case (Throw e1)
    with f Cons.prems have "fetchSubject net (Str s) t st = (Throw e, st')" by simp
    then have "s # rest = [] @ s # rest \<and> allSubjects_spec net t [] st = (Normal, st)
        \<and> fetchSubject net (Str s) t st = (Throw e, st')" by simp
    then show ?thesis by blast
  next
    case Normal
    with f Cons.prems have "allSubjects_spec net t rest st1 = (Throw e, st')" by simp
    from Cons.IH[OF this] obtain before failed later st2 where
      split: "rest = before @ failed # later" "allSubjects_spec net t before st1 = (Normal, st2)"
        "fetchSubject net (Str failed) t st2 = (Throw e, st')"
      by blast
    have "s # rest = (s # before) @ failed # later \<and> allSubjects_spec net t (s # before) st = (Normal, st2)
        \<and> fetchSubject net (Str failed) t st2 = (Throw e, st')"
      using split f Normal by simp
    then show ?thesis by blast
  qed
qed

lemma empty_code_first_overflows:
  assumes "subjects st = Some ([] # rest)" "\<not> truthy sc"
  shows "getCourseData (Suc n) net sc t st = Some (Throw RangeError, st)"
  using assms by (simp add: discoverIfNeeded_known)

lemma biol_fetched:
  assumes "subjects st = Some subs" "''BIOL'' \<in> set subs"
  shows "\<exists>st'. fetchSubject site (Str ''BIOL'') t st = (Normal, st') \<and> subjects st' = subjects st"
proof -
  obtain r st' where f: "fetchSubject site (Str ''BIOL'') t st = (r, st')"
    by (cases "fetchSubject site (Str ''BIOL'') t st")
  have "r = Normal"
    using f assms by (simp add: fetchSubject_def Let_def site_def biol_row_saved)
  moreover have "subjects st' = subjects st"
    using fetchSubject_keeps(1)[OF f] .
  ultimately show ?thesis using f by simp
qed

lemma empty_code_in_the_middle:
  assumes "subjects st = Some [''BIOL'', [], ''CHEM'']" "\<not> truthy sc"
  shows "getCourseData n site sc t st = None"
  using assms
proof (induction n arbitrary: sc t st)
  case 0
  then show ?case by simp
next
  case (Suc n)
  let ?t = "if truthy t then t else terms_latest st"
  have d: "discoverIfNeeded site st = (Normal, st)"
    using Suc.prems(1) by (simp add: discoverIfNeeded_known)
  have top: "getCourseData (Suc n) site sc t st = forSubjects n site t [''BIOL'', [], ''CHEM''] st"
    using d Suc.prems by simp
  show ?case
  proof (cases n)
    case 0
    then show ?thesis using top by simp
  next
    case (Suc m)
    obtain st' where f: "fetchSubject site (Str ''BIOL'') ?t st = (Normal, st')"
        and keep: "subjects st' = subjects st"
      using biol_fetched[OF Suc.prems(1), of ?t] by auto
    have first: "getCourseData n site (Str ''BIOL'') ?t st = Some (Normal, st')"
      using f d Suc by simp
    have "getCourseData n site (Str []) (if truthy t then t else terms_latest st') st' = None"
      using Suc.IH[of st' "Str []"] keep Suc.prems(1) by simp
    then have "forSubjects n site t [''BIOL'', [], ''CHEM''] st = None"
      using first by simp
    then show ?thesis using top by simp
  qed
qed

text \<open>
  C4, as the claim states it, fails: a subject list may hold the empty code, for which
  \<open>if (subjectCode)\<close> takes the all-subjects branch again. With the list
  \<open>['BIOL', '', 'CHEM']\<close> the call for the empty code fetches \<open>BIOL\<close> and nests once
  more, without end: the operation never returns and \<open>CHEM\<close> is never fetched.
\<close>

theorem empty_subject_code_counterexample:
  "\<not> (\<exists>n res. getCourseData n site Undefined Undefined
         ((new_Scraper ''x@wm.edu'')\<lparr>terms_latest := Str ''202320'',
            subjects := Some [''BIOL'', [], ''CHEM'']\<rparr>) = Some res)"
proof -
  have "getCourseData n site Undefined Undefined
         ((new_Scraper ''x@wm.edu'')\<lparr>terms_latest := Str ''202320'',
            subjects := Some [''BIOL'', [], ''CHEM'']\<rparr>) = None" for n
    by (rule empty_code_in_the_middle) simp_all
  then show ?thesis by simp
qed

text \<open>
  C4, amended. When every code of the discovered subject list is a non-empty string, the
  course-fetch operation called with no subject argument returns, and it does what the
  traversal of the specification does: single-subject fetching for every subject, in list
  order, one at a time, with one term. If no subject fails, the requests sent are exactly
  those for the subjects of the list, in list order. If processing a subject fails, the
  requests sent are those for the subjects before it and for itself, so that no later
  subject is fetched, and every record appended while the earlier subjects were processed
  is still in the collection.
\<close>

theorem all_subjects_traversal:
  assumes "subjects st = Some subs" and "\<forall>s\<in>set subs. s \<noteq> []"
  shows "getCourseData (Suc (Suc n)) net Undefined trm st
       = Some (allSubjects_spec net (if truthy trm then trm else terms_latest st) subs st)
     \<and> (\<forall>st'. allSubjects_spec net (if truthy trm then trm else terms_latest st) subs st = (Normal, st')
          \<longrightarrow> sent st' = sent st
                @ map (GetResults (template (if truthy trm then trm else terms_latest st))) subs)
     \<and> (\<forall>e st'. allSubjects_spec net (if truthy trm then trm else terms_latest st) subs st = (Throw e, st')
          \<longrightarrow> (\<exists>before failed later st1. subs = before @ failed # later
                \<and> allSubjects_spec net (if truthy trm then trm else terms_latest st) before st = (Normal, st1)
                \<and> fetchSubject net (Str failed) (if truthy trm then trm else terms_latest st) st1 = (Throw e, st')
                \<and> sent st' = sent st
                     @ map (GetResults (template (if truthy trm then trm else terms_latest st))) (before @ [failed])
                \<and> (\<exists>new. classData st1 = classData st @ new)
                \<and> (\<exists>kept. classData st' = classData st1 @ kept)))"
proof -
  let ?t = "if truthy trm then trm else terms_latest st"
  have t_idem: "(if truthy ?t then ?t else terms_latest st) = ?t" by simp
  have known: "subjects st \<noteq> None" using assms(1) by simp
  have "discoverIfNeeded net st = (Normal, st)"
    using known by (rule discoverIfNeeded_known)
  moreover have "\<not> (subs \<noteq> [] \<and> hd subs = [])"
    using assms(2) hd_in_set by blast
  ultimately have "getCourseData (Suc (Suc n)) net Undefined trm st = forSubjects (Suc n) net trm subs st"
    using assms(1) by auto
  then have refines: "getCourseData (Suc (Suc n)) net Undefined trm st = Some (allSubjects_spec net ?t subs st)"
    using forSubjects_refines[OF known assms(2)] by simp
  have normal: "sent st' = sent st @ map (GetResults (template ?t)) subs"
    if "allSubjects_spec net ?t subs st = (Normal, st')" for st'
    using allSubjects_spec_normal[OF assms(1) subset_refl that] t_idem by simp
  have throw: "\<exists>before failed later st1. subs = before @ failed # later
        \<and> allSubjects_spec net ?t before st = (Normal, st1)
        \<and> fetchSubject net (Str failed) ?t st1 = (Throw e, st')
        \<and> sent st' = sent st @ map (GetResults (template ?t)) (before @ [failed])
        \<and> (\<exists>new. classData st1 = classData st @ new)
        \<and> (\<exists>kept. classData st' = classData st1 @ kept)"
    if "allSubjects_spec net ?t subs st = (Throw e, st')" for e st'
  proof -
    from allSubjects_spec_throw[OF that] obtain before failed later st1 where
      split: "subs = before @ failed # later" "allSubjects_spec net ?t before st = (Normal, st1)"
        "fetchSubject net (Str failed) ?t st1 = (Throw e, st')"
      by blast
    have sub: "set before \<subseteq> set subs" using split(1) by auto
    have b: "sent st1 = sent st @ map (GetResults (template ?t)) before"
        "subjects st1 = subjects st" "terms_latest st1 = terms_latest st"
        "\<exists>new. classData st1 = classData st @ new"
      using allSubjects_spec_normal[OF assms(1) sub split(2)] t_idem by simp_all
    have f_in: "failed \<in> set subs" using split(1) by simp
    have "sent st' = sent st1 @ [GetResults (template (if truthy ?t then ?t else terms_latest st1)) failed]"
      using fetchSubject_sent[of st1 subs failed net ?t "Throw e" st'] b(2) assms(1) f_in split(3) by simp
    then have s: "sent st' = sent st @ map (GetResults (template ?t)) (before @ [failed])"
      using b(1,3) t_idem by simp
    have k: "\<exists>kept. classData st' = classData st1 @ kept"
      using fetchSubject_keeps(3)[OF split(3)] .
    from split s b(4) k show ?thesis by blast
  qed
  from refines normal throw show ?thesis by blast
qed

theorem all_subjects_traversal_witness:
  "\<exists>st'. getCourseData 2 site Undefined Undefined
        ((new_Scraper ''x@wm.edu'')\<lparr>terms_latest := Str ''202320'', subjects := Some [''BIOL'', ''CHEM'']\<rparr>)
       = Some (Throw IncorrectStatus, st')
     \<and> sent st' = [GetResults ''202320'' ''BIOL'', GetResults ''202320'' ''CHEM'']
     \<and> classData st' = [closed_section]"
proof -
  let ?st = "(new_Scraper ''x@wm.edu'')\<lparr>terms_latest := Str ''202320'', subjects := Some [''BIOL'', ''CHEM'']\<rparr>"
  have run: "getCourseData 2 site Undefined Undefined ?st
      = Some (allSubjects_spec site (Str ''202320'') [''BIOL'', ''CHEM''] ?st)"
    using all_subjects_traversal [of ?st "[''BIOL'', ''CHEM'']" 0 site Undefined]
    by (simp add: numeral_2_eq_2)
  have "fst (allSubjects_spec site (Str ''202320'') [''BIOL'', ''CHEM''] ?st) = Throw IncorrectStatus
      \<and> sent (snd (allSubjects_spec site (Str ''202320'') [''BIOL'', ''CHEM''] ?st))
          = [GetResults ''202320'' ''BIOL'', GetResults ''202320'' ''CHEM'']
      \<and> classData (snd (allSubjects_spec site (Str ''202320'') [''BIOL'', ''CHEM''] ?st)) = [closed_section]"
    by (simp add: fetchSubject_def Let_def site_def biol_row_saved chem_row_rejected new_Scraper_def)
  then have "getCourseData 2 site Undefined Undefined ?st
        = Some (Throw IncorrectStatus, snd (allSubjects_spec site (Str ''202320'') [''BIOL'', ''CHEM''] ?st))
      \<and> sent (snd (allSubjects_spec site (Str ''202320'') [''BIOL'', ''CHEM''] ?st))
          = [GetResults ''202320'' ''BIOL'', GetResults ''202320'' ''CHEM'']
      \<and> classData (snd (allSubjects_spec site (Str ''202320'') [''BIOL'', ''CHEM''] ?st)) = [closed_section]"
    using run by (metis prod.collapse)
  then show ?thesis by (rule exI)
qed

end
